theory Spec2Isabelle
  imports Main
begin

section \<open>Generated API client and the HTTP surface\<close>

text \<open>
  \<^verbatim>\<open>DefaultService.ts\<close> is a class of static methods, each a single call
  \<^verbatim>\<open>__request(OpenAPI, { method: ..., url: ..., ... })\<close>.  A callable is recorded by
  its name, its HTTP method and its URL template, in the order of the source file.
\<close>

datatype http_method = GET | POST | PUT | DELETE

record callable =
  cname :: string
  cmethod :: http_method
  curl :: string

definition DefaultService :: "callable list" where
  "DefaultService =
    [\<lparr>cname = ''rootGet'', cmethod = GET, curl = ''/''\<rparr>,
     \<lparr>cname = ''shutdownShutdownPost'', cmethod = POST, curl = ''/shutdown''\<rparr>,
     \<lparr>cname = ''healthHealthGet'', cmethod = GET, curl = ''/health''\<rparr>,
     \<lparr>cname = ''getServerModeServerModeGet'', cmethod = GET, curl = ''/server/mode''\<rparr>,
     \<lparr>cname = ''listPodcastProjectsPodcastProjectsGet'', cmethod = GET,
        curl = ''/podcast/projects''\<rparr>,
     \<lparr>cname = ''createPodcastProjectPodcastProjectsPost'', cmethod = POST,
        curl = ''/podcast/projects''\<rparr>,
     \<lparr>cname = ''getPodcastProjectPodcastProjectsProjectIdGet'', cmethod = GET,
        curl = ''/podcast/projects/{project_id}''\<rparr>,
     \<lparr>cname = ''updatePodcastProjectPodcastProjectsProjectIdPut'', cmethod = PUT,
        curl = ''/podcast/projects/{project_id}''\<rparr>,
     \<lparr>cname = ''deletePodcastProjectPodcastProjectsProjectIdDelete'', cmethod = DELETE,
        curl = ''/podcast/projects/{project_id}''\<rparr>,
     \<lparr>cname = ''updatePodcastSegmentPodcastProjectsProjectIdSegmentsSegmentIdPut'',
        cmethod = PUT, curl = ''/podcast/projects/{project_id}/segments/{segment_id}''\<rparr>,
     \<lparr>cname = ''startPodcastPipelinePodcastProjectsProjectIdStartPost'', cmethod = POST,
        curl = ''/podcast/projects/{project_id}/start''\<rparr>,
     \<lparr>cname = ''pausePodcastPipelinePodcastProjectsProjectIdPausePost'', cmethod = POST,
        curl = ''/podcast/projects/{project_id}/pause''\<rparr>,
     \<lparr>cname = ''getPodcastProgressPodcastProjectsProjectIdProgressGet'', cmethod = GET,
        curl = ''/podcast/projects/{project_id}/progress''\<rparr>,
     \<lparr>cname = ''exportPodcastAudioPodcastProjectsProjectIdExportPost'', cmethod = POST,
        curl = ''/podcast/projects/{project_id}/export''\<rparr>]"

text \<open>
  Modelled from the spec: the HTTP service itself is not among the sources; its route
  table is the one of the spec's section on external interfaces, in the table's order
  and with the table's parameter names.
\<close>

type_synonym route = "http_method \<times> string"

definition http_surface :: "route list" where
  "http_surface =
    [(GET, ''/''),
     (POST, ''/shutdown''),
     (GET, ''/health''),
     (GET, ''/server/mode''),
     (GET, ''/profiles''),
     (POST, ''/profiles''),
     (POST, ''/profiles/{id}/samples''),
     (POST, ''/profiles/{id}/generate''),
     (GET, ''/podcast/projects''),
     (POST, ''/podcast/projects''),
     (GET, ''/podcast/projects/{id}''),
     (PUT, ''/podcast/projects/{id}''),
     (DELETE, ''/podcast/projects/{id}''),
     (PUT, ''/podcast/projects/{id}/segments/{sid}''),
     (POST, ''/podcast/projects/{id}/start''),
     (POST, ''/podcast/projects/{id}/pause''),
     (GET, ''/podcast/projects/{id}/progress''),
     (POST, ''/podcast/projects/{id}/export'')]"

text \<open>
  Two URL templates denote the same path when they agree segment by segment, a
  \<^verbatim>\<open>{...}\<close> placeholder matching any placeholder whatever its name (the client
  writes \<^verbatim>\<open>{project_id}\<close> where the route table writes \<^verbatim>\<open>{id}\<close>).
\<close>

fun split_on :: "char \<Rightarrow> string \<Rightarrow> string list" where
  "split_on c [] = [Nil]"
| "split_on c (x # xs) =
     (if x = c then [] # split_on c xs
      else (case split_on c xs of [] \<Rightarrow> [x # Nil] | w # ws \<Rightarrow> (x # w) # ws))"

datatype path_seg = Lit string | Param

definition to_seg :: "string \<Rightarrow> path_seg" where
  "to_seg s = (if s \<noteq> [] \<and> hd s = CHR ''{'' \<and> last s = CHR ''}'' then Param else Lit s)"

definition path_shape :: "string \<Rightarrow> path_seg list" where
  "path_shape u = map to_seg (split_on (CHR ''/'') u)"

definition serves :: "callable \<Rightarrow> route \<Rightarrow> bool" where
  "serves c r \<longleftrightarrow> cmethod c = fst r \<and> path_shape (curl c) = path_shape (snd r)"

definition callables_for :: "route \<Rightarrow> callable list" where
  "callables_for r = filter (\<lambda>c. serves c r) DefaultService"

definition routes_for :: "callable \<Rightarrow> route list" where
  "routes_for c = filter (\<lambda>r. serves c r) http_surface"

definition is_profile_route :: "route \<Rightarrow> bool" where
  "is_profile_route r \<longleftrightarrow> take 1 (drop 1 (split_on (CHR ''/'') (snd r))) = [''profiles'']"


section \<open>Web front end: data model\<close>

text \<open>
  \<^verbatim>\<open>PodcastProject\<close> and \<^verbatim>\<open>PodcastSegment\<close> are imported from
  \<^verbatim>\<open>@/lib/api/types\<close>; the fields below are the ones the components and hooks read
  and write.  The records are extensible, so a statement over
  the scheme type \<open>'a podcast_project_scheme\<close> speaks about every further field as well.  The
  source's field \<^verbatim>\<open>id\<close> is \<open>pid\<close> for a project and \<open>sid\<close> for a segment; a
  nullable string is a \<open>string option\<close>.
\<close>

record podcast_segment =
  sid :: string
  status :: string
  speaker :: string
  segment_order :: int
  text_of :: string
  profile_id :: "string option"
  model_size :: string
  error_message :: "string option"

record podcast_project =
  pid :: string
  name :: string
  description :: "string option"
  script_content :: string
  pipeline_state :: string
  current_segment_index :: int
  completed_count :: int
  failed_count :: int
  total_segments :: int
  segments :: "podcast_segment list"
  updated_at :: string

text \<open>An HTTP request issued through \<^verbatim>\<open>apiClient\<close>: method and URL.\<close>

datatype request = Request http_method string

text \<open>The binary body of a response: its media type and its bytes.\<close>

datatype blob = Blob (blob_type: string) (blob_bytes: "nat list")

text \<open>What clicking a link with a \<^verbatim>\<open>download\<close> attribute saves: name and content.\<close>

record download =
  filename :: string
  content :: blob

section \<open>The hook \<^verbatim>\<open>usePodcastProject\<close>\<close>

text \<open>
  The state cells of the hook (\<^verbatim>\<open>useState\<close>) together with what it does to the
  outside: the requests it has issued, the downloads it has triggered, and the lines
  written with \<^verbatim>\<open>console.error\<close>.
\<close>

record 'a hook_state =
  project :: "'a podcast_project_scheme option"
  loading :: bool
  error :: "string option"
  isGenerating :: bool
  requests :: "request list"
  downloads :: "download list"
  console :: "string list"

definition project_url :: "string \<Rightarrow> string" where
  "project_url projectId = ''/podcast/projects/'' @ projectId"

text \<open>
  \<^verbatim>\<open>fetchProject\<close> is asynchronous.  Calling it runs its body up to the
  \<^verbatim>\<open>await\<close>: \<^verbatim>\<open>setLoading(true)\<close>, \<^verbatim>\<open>setError(null)\<close>, and the GET request
  is issued.  The rest runs when the response arrives (\<open>Inr\<close>) or the request fails
  (\<open>Inl\<close>).
\<close>

definition fetchProject ::
  "string \<Rightarrow> ('a, 'b) hook_state_scheme \<Rightarrow> ('a, 'b) hook_state_scheme" where
  "fetchProject projectId h =
     h\<lparr>loading := True, error := None,
       requests := requests h @ [Request GET (project_url projectId)]\<rparr>"

definition fetchProject_settled ::
  "string + 'a podcast_project_scheme \<Rightarrow> ('a, 'b) hook_state_scheme \<Rightarrow>
     ('a, 'b) hook_state_scheme" where
  "fetchProject_settled r h =
     (case r of
        Inr p \<Rightarrow> h\<lparr>project := Some p, loading := False\<rparr>
      | Inl err \<Rightarrow> h\<lparr>error := Some err, loading := False\<rparr>)"

text \<open>
  A message of the progress stream.  Either \<^verbatim>\<open>JSON.parse(event.data)\<close> throws, or
  what it yields has no readable \<^verbatim>\<open>type\<close> (\<open>Unparseable\<close>: both end in the
  \<^verbatim>\<open>catch\<close> block), or it yields an object with a \<^verbatim>\<open>type\<close> and an optional
  \<^verbatim>\<open>data\<close>; the payload's fields are the ones the handler reads.
\<close>

record event_data =
  data_pipeline_state :: string
  data_current_segment_index :: int
  data_completed_count :: int
  data_failed_count :: int
  data_total_segments :: int
  data_error :: "string option"

datatype sse_message = Unparseable | Event string "event_data option"

text \<open>\<^verbatim>\<open>data.data?.error || 'Pipeline error'\<close>: the empty string is falsy.\<close>

definition error_text :: "event_data option \<Rightarrow> string" where
  "error_text d =
     (case d of
        None \<Rightarrow> ''Pipeline error''
      | Some dd \<Rightarrow>
          (case data_error dd of
             None \<Rightarrow> ''Pipeline error''
           | Some e \<Rightarrow> if e = [] then ''Pipeline error'' else e))"

text \<open>The spread \<^verbatim>\<open>{...project, pipeline_state: ..., ...}\<close> of the progress branch.\<close>

definition apply_progress ::
  "event_data \<Rightarrow> 'a podcast_project_scheme \<Rightarrow> 'a podcast_project_scheme" where
  "apply_progress d p =
     p\<lparr>pipeline_state := data_pipeline_state d,
       current_segment_index := data_current_segment_index d,
       completed_count := data_completed_count d,
       failed_count := data_failed_count d,
       total_segments := data_total_segments d\<rparr>"

text \<open>
  \<^verbatim>\<open>eventSource.onmessage\<close>, branch by branch.  State setters called in one handler
  take effect in the order of the calls.
\<close>

definition onmessage ::
  "string \<Rightarrow> sse_message \<Rightarrow> ('a, 'b) hook_state_scheme \<Rightarrow> ('a, 'b) hook_state_scheme" where
  "onmessage projectId m h =
     (case m of
        Unparseable \<Rightarrow> h\<lparr>console := console h @ [''Error parsing SSE event:'']\<rparr>
      | Event ty d \<Rightarrow>
          if ty = ''progress'' then
            (case project h of
               None \<Rightarrow> h
             | Some p \<Rightarrow>
                 (case d of
                    None \<Rightarrow> h
                  | Some dd \<Rightarrow> h\<lparr>project := Some (apply_progress dd p)\<rparr>))
          else if ty = ''segment_complete'' \<or> ty = ''segment_failed'' then
            fetchProject projectId h
          else if ty = ''complete'' then
            fetchProject projectId (h\<lparr>isGenerating := False\<rparr>)
          else if ty = ''error'' then
            fetchProject projectId (h\<lparr>isGenerating := False, error := Some (error_text d)\<rparr>)
          else h)"

text \<open>The effect that follows a change of \<^verbatim>\<open>project\<close>.\<close>

definition sync_isGenerating :: "('a, 'b) hook_state_scheme \<Rightarrow> ('a, 'b) hook_state_scheme" where
  "sync_isGenerating h =
     (case project h of
        None \<Rightarrow> h
      | Some p \<Rightarrow> h\<lparr>isGenerating := (pipeline_state p = ''generating'')\<rparr>)"

text \<open>
  \<^verbatim>\<open>exportAudio\<close> (the same body in both versions of the hook): POST to the export
  route asking for a blob; when the response arrives, an object URL for the blob is put
  on a fresh link whose \<^verbatim>\<open>download\<close> attribute is the file name, and the link is
  clicked.  A failed request rejects before any of this.
\<close>

definition export_filename :: "string \<Rightarrow> string" where
  "export_filename projectId = ''podcast-'' @ projectId @ ''.wav''"

definition exportAudio ::
  "string \<Rightarrow> string + blob \<Rightarrow> ('a, 'b) hook_state_scheme \<Rightarrow>
     (string + blob) \<times> ('a, 'b) hook_state_scheme" where
  "exportAudio projectId response h =
     (let h1 = h\<lparr>requests := requests h @ [Request POST (project_url projectId @ ''/export'')]\<rparr>
      in case response of
           Inl err \<Rightarrow> (Inl err, h1)
         | Inr b \<Rightarrow>
             (Inr b,
              h1\<lparr>downloads := downloads h1 @
                    [\<lparr>filename = export_filename projectId, content = b\<rparr>]\<rparr>))"

section \<open>The progress-stream subscription of \<^verbatim>\<open>usePodcastProject\<close>\<close>















section \<open>The hook \<^verbatim>\<open>usePodcasts\<close> and the project list\<close>

text \<open>
  The state of \<^verbatim>\<open>usePodcasts\<close> (\<^verbatim>\<open>projects\<close>, \<^verbatim>\<open>loading\<close>, \<^verbatim>\<open>error\<close>) and of
  the \<^verbatim>\<open>PodcastList\<close> component that uses it (\<^verbatim>\<open>deletingId\<close>,
  \<^verbatim>\<open>createDialogOpen\<close>), with the requests issued.
\<close>

record 'a list_state =
  projects :: "'a podcast_project_scheme list"
  loading_list :: bool
  error_list :: "string option"
  deletingId :: "string option"
  createDialogOpen :: bool
  requests_list :: "request list"

text \<open>
  \<^verbatim>\<open>deleteProject\<close> of \<^verbatim>\<open>lib/hooks/usePodcasts.ts\<close>: the DELETE request, and once
  it has succeeded the project is filtered out of the list.  A rejected request
  (\<open>Some err\<close>) throws before the list is touched.
\<close>

definition deleteProject ::
  "string \<Rightarrow> string option \<Rightarrow> ('a, 'b) list_state_scheme \<Rightarrow>
     string option \<times> ('a, 'b) list_state_scheme" where
  "deleteProject projectId rejection s =
     (let s1 = s\<lparr>requests_list := requests_list s @ [Request DELETE (project_url projectId)]\<rparr>
      in case rejection of
           Some err \<Rightarrow> (Some err, s1)
         | None \<Rightarrow> (None, s1\<lparr>projects := filter (\<lambda>p. pid p \<noteq> projectId) (projects s1)\<rparr>))"

text \<open>
  \<^verbatim>\<open>handleDelete\<close>: \<open>confirmed\<close> is the answer to \<^verbatim>\<open>confirm(...)\<close>.  The
  \<^verbatim>\<open>finally\<close> block resets \<^verbatim>\<open>deletingId\<close> whether or not the request succeeded;
  the first component of the result is the error the handler rejects with, if any.
\<close>

definition handleDelete ::
  "string \<Rightarrow> bool \<Rightarrow> string option \<Rightarrow> ('a, 'b) list_state_scheme \<Rightarrow>
     string option \<times> ('a, 'b) list_state_scheme" where
  "handleDelete projectId confirmed rejection s =
     (if \<not> confirmed then (None, s)
      else
        case deleteProject projectId rejection (s\<lparr>deletingId := Some projectId\<rparr>) of
          (r, s2) \<Rightarrow> (r, s2\<lparr>deletingId := None\<rparr>))"

text \<open>The rendering of one project of the list, and of the list.\<close>

fun getStatusBadge :: "string \<Rightarrow> string" where
  "getStatusBadge st =
     (if st = ''idle'' then ''bg-muted text-muted-foreground''
      else if st = ''generating'' then ''bg-blue-500/10 text-blue-500 border-blue-500/20''
      else if st = ''paused'' then ''bg-yellow-500/10 text-yellow-500 border-yellow-500/20''
      else if st = ''completed'' then ''bg-green-500/10 text-green-500 border-green-500/20''
      else if st = ''error'' then ''bg-red-500/10 text-red-500 border-red-500/20''
      else ''bg-muted text-muted-foreground'')"

record item_view =
  item_name :: string
  item_description :: "string option"
  item_dimmed :: bool
  badge_class :: string
  badge_text :: string
  item_counter :: "(int \<times> int) option"
  item_updated :: string

text \<open>
  \<open>fmt\<close> stands for \<^verbatim>\<open>formatDistanceToNow(new Date(...), { addSuffix: true })\<close> of
  the date library.  \<^verbatim>\<open>project.description && ...\<close> shows a description that is
  neither null nor empty.
\<close>

definition render_item ::
  "(string \<Rightarrow> string) \<Rightarrow> string option \<Rightarrow> 'a podcast_project_scheme \<Rightarrow> item_view" where
  "render_item fmt deleting p =
     \<lparr>item_name = name p,
      item_description =
        (case description p of None \<Rightarrow> None | Some d \<Rightarrow> if d = [] then None else Some d),
      item_dimmed = (deleting = Some (pid p)),
      badge_class = getStatusBadge (pipeline_state p),
      badge_text = pipeline_state p,
      item_counter =
        (if pipeline_state p \<noteq> ''idle'' \<and> total_segments p > 0
         then Some (completed_count p, total_segments p) else None),
      item_updated = fmt (updated_at p)\<rparr>"

datatype list_view = FailedToLoad | Spinner | NoPodcasts | Items "item_view list"

definition PodcastList ::
  "(string \<Rightarrow> string) \<Rightarrow> ('a, 'b) list_state_scheme \<Rightarrow> list_view" where
  "PodcastList fmt s =
     (if error_list s \<noteq> None then FailedToLoad
      else if loading_list s then Spinner
      else if projects s = [] then NoPodcasts
      else Items (map (render_item fmt (deletingId s)) (projects s)))"

section \<open>The project editor\<close>

text \<open>
  \<^verbatim>\<open>PodcastEditor\<close> holds the selected project's id, the text of the script area,
  and the flags \<^verbatim>\<open>isEditing\<close> and \<^verbatim>\<open>saving\<close>, on top of the state of the
  \<^verbatim>\<open>usePodcastProject\<close> hook it calls.
\<close>

record 'a editor_state = "'a hook_state" +
  selectedProjectId :: "string option"
  scriptContent :: string
  isEditing :: bool
  saving :: bool

text \<open>The script area's \<^verbatim>\<open>onChange\<close>.\<close>

definition onChange_script :: "string \<Rightarrow> 'a editor_state \<Rightarrow> 'a editor_state" where
  "onChange_script v s = s\<lparr>scriptContent := v, isEditing := True\<rparr>"

text \<open>
  \<^verbatim>\<open>handleSaveScript\<close>: the guard (\<^verbatim>\<open>!selectedProjectId\<close> holds of null and of the
  empty string), then \<^verbatim>\<open>setSaving(true)\<close>, a comment in place of the update call,
  \<^verbatim>\<open>setIsEditing(false)\<close>, and \<^verbatim>\<open>setSaving(false)\<close> in the \<^verbatim>\<open>finally\<close> block.
\<close>

definition handleSaveScript :: "'a editor_state \<Rightarrow> 'a editor_state" where
  "handleSaveScript s =
     (if selectedProjectId s = None \<or> selectedProjectId s = Some [] \<or> project s = None then s
      else ((s\<lparr>saving := True\<rparr>)\<lparr>isEditing := False\<rparr>)\<lparr>saving := False\<rparr>)"

text \<open>The effect "load script when project is selected".\<close>

definition load_script_effect :: "'a editor_state \<Rightarrow> 'a editor_state" where
  "load_script_effect s =
     (case project s of
        None \<Rightarrow> s
      | Some p \<Rightarrow> if \<not> isEditing s then s\<lparr>scriptContent := script_content p\<rparr> else s)"

section \<open>Sample values\<close>

definition demo_project :: podcast_project where
  "demo_project =
     \<lparr>pid = ''p1'', name = ''Demo'', description = None, script_content = ''host1: Hello'',
      pipeline_state = ''generating'', current_segment_index = 0, completed_count = 0,
      failed_count = 0, total_segments = 2, segments = [], updated_at = ''2026-01-01''\<rparr>"

definition empty_project :: podcast_project where
  "empty_project = demo_project\<lparr>pid := ''p2'', name := ''Empty'', total_segments := 0\<rparr>"

definition demo_hook :: "unit hook_state" where
  "demo_hook =
     \<lparr>project = Some demo_project, loading = False, error = None, isGenerating = True,
      requests = [], downloads = [], console = []\<rparr>"

text \<open>The hook before its first fetch has returned: no project yet.\<close>

definition loading_hook :: "unit hook_state" where
  "loading_hook = demo_hook\<lparr>project := None, loading := True\<rparr>"

definition demo_data :: event_data where
  "demo_data =
     \<lparr>data_pipeline_state = ''generating'', data_current_segment_index = 1,
      data_completed_count = 1, data_failed_count = 0, data_total_segments = 2,
      data_error = None\<rparr>"

definition demo_list :: "unit list_state" where
  "demo_list =
     \<lparr>projects = [demo_project, empty_project], loading_list = False, error_list = None,
      deletingId = None, createDialogOpen = False, requests_list = []\<rparr>"

section \<open>The setup script \<^verbatim>\<open>setup_linux.sh\<close>\<close>

text \<open>
  The script runs under \<^verbatim>\<open>set -e\<close> (its first command): a simple command that
  returns a non-zero status ends the script with that status, unless the command is the
  condition of an \<^verbatim>\<open>if\<close>.  What the script depends on is collected in an
  environment: the exit status of each external command, what the operator answers, and
  what the embedded Python programs find.

  A printed line is \<open>Ok\<close> for a line the script marks with a check mark, \<open>Err\<close> for a
  line it marks with a cross (the label, then the values printed with it), and
  \<open>Info\<close> otherwise.  Blank lines, the banner and the closing "Next steps" block are
  left out.
\<close>

datatype line = Info string | Ok string | Err string "string list"

text \<open>
  What an \<^verbatim>\<open>import\<close> statement of the embedded Python does: it succeeds, raises
  \<^verbatim>\<open>ImportError\<close>, or raises some other exception.
\<close>

datatype import_outcome = Imported | ImportError | OtherError

record dir_status =
  dir_path :: string
  dir_exists :: bool
  mkdir_error :: "string option"

record env =
  python_version_rc :: nat
  venv_exists :: bool
  read_rc :: nat
  REPLY :: string
  rm_rc :: nat
  SKIP_VENV_env :: string
  venv_rc :: nat
  activate_rc :: nat
  pip_upgrade_rc :: nat
  pip_install_rc :: nat
  import_result :: "string \<Rightarrow> import_outcome"
  cuda_probe :: "string + string option"
  db_tables :: "string + string list"
  config_error :: "string option"
  dir_status_of :: "string \<Rightarrow> dir_status"

text \<open>
  The shell's state: the lines printed so far, the status \<^verbatim>\<open>$?\<close> of the last
  command, and the variable \<^verbatim>\<open>SKIP_VENV\<close>.  A step either ends the script
  (\<open>Inl\<close>: exit status and output) or continues.
\<close>

record sh_state =
  out :: "line list"
  last_status :: nat
  SKIP_VENV :: string

type_synonym step = "sh_state \<Rightarrow> (nat \<times> line list) + sh_state"

fun seq :: "step list \<Rightarrow> step" where
  "seq [] s = Inr s"
| "seq (f # fs) s = (case f s of Inl e \<Rightarrow> Inl e | Inr s' \<Rightarrow> seq fs s')"

definition echo :: "line \<Rightarrow> step" where
  "echo l s = Inr (s\<lparr>out := out s @ [l], last_status := 0\<rparr>)"

text \<open>
  A simple command with exit status \<open>rc\<close> that prints \<open>ls\<close>; \<open>errexit\<close> is the
  shell option that \<^verbatim>\<open>set -e\<close> turns on.
\<close>

definition cmd :: "bool \<Rightarrow> line list \<times> nat \<Rightarrow> step" where
  "cmd errexit r s =
     (if errexit \<and> snd r \<noteq> 0 then Inl (snd r, out s @ fst r)
      else Inr (s\<lparr>out := out s @ fst r, last_status := snd r\<rparr>))"

definition exit_sh :: "nat \<Rightarrow> step" where
  "exit_sh rc s = Inl (rc, out s)"

text \<open>\<^verbatim>\<open>if [ $? -ne 0 ]; then ... fi\<close>\<close>

definition if_failed :: "step list \<Rightarrow> step" where
  "if_failed body s = (if last_status s \<noteq> 0 then seq body s else Inr (s\<lparr>last_status := 0\<rparr>))"

definition if_sh :: "(sh_state \<Rightarrow> bool) \<Rightarrow> step list \<Rightarrow> step list \<Rightarrow> step" where
  "if_sh c yes no s = (if c s then seq yes s else seq no s)"

definition assign_SKIP_VENV :: "string \<Rightarrow> step" where
  "assign_SKIP_VENV v s = Inr (s\<lparr>SKIP_VENV := v, last_status := 0\<rparr>)"

subsection \<open>The embedded Python programs\<close>

text \<open>
  Each is a function from the environment to the lines it prints and its exit status.
  An exception that no \<^verbatim>\<open>except\<close> clause catches ends Python at once with
  status 1.
\<close>

definition import_ok :: "env \<Rightarrow> string \<Rightarrow> bool" where
  "import_ok e m \<longleftrightarrow> import_result e m = Imported"

definition cuda_check_py :: "env \<Rightarrow> line list \<times> nat" where
  "cuda_check_py e =
     (if \<not> import_ok e ''PyTorch'' then ([], 1)
      else case cuda_probe e of
             Inl exc \<Rightarrow> ([], 1)
           | Inr (Some device) \<Rightarrow>
               ([Ok (''CUDA available: '' @ device), Info ''Total GPU memory'',
                 Info ''Current allocated''], 0)
           | Inr None \<Rightarrow> ([Info ''CUDA not available - will use CPU''], 0))"

definition import_names :: "string list" where
  "import_names =
     [''FastAPI'', ''SQLAlchemy'', ''PyYAML'', ''PyTorch'', ''Librosa'', ''SoundFile'',
      ''Backend modules'']"

definition ok_lines :: "string \<Rightarrow> line list" where
  "ok_lines m =
     (if m = ''Backend modules''
      then [Ok ''database module'', Ok ''models module'', Ok ''podcast module'',
            Ok ''config module'']
      else [Ok m])"

text \<open>
  The import verification tries the imports one after the other, each in a
  \<^verbatim>\<open>try\<close> that catches \<^verbatim>\<open>ImportError\<close> only: a caught failure prints a line
  and is added to \<^verbatim>\<open>failed_imports\<close>; any other exception ends the program there,
  with what was printed so far.  After the last import a non-empty
  \<^verbatim>\<open>failed_imports\<close> is reported and the program exits with status 1.
\<close>

fun try_imports ::
  "(string \<Rightarrow> import_outcome) \<Rightarrow> string list \<Rightarrow> line list \<Rightarrow> string list \<Rightarrow> line list \<times> nat" where
  "try_imports r [] printed failed_imports =
     (if failed_imports \<noteq> []
      then (printed @ [Err ''import(s) failed'' failed_imports], 1)
      else (printed @ [Ok ''All imports verified''], 0))"
| "try_imports r (m # ms) printed failed_imports =
     (case r m of
        Imported \<Rightarrow> try_imports r ms (printed @ ok_lines m) failed_imports
      | ImportError \<Rightarrow> try_imports r ms (printed @ [Err m []]) (failed_imports @ [m])
      | OtherError \<Rightarrow> (printed, 1))"

definition verify_imports_py :: "env \<Rightarrow> line list \<times> nat" where
  "verify_imports_py e = try_imports (import_result e) import_names [] []"

text \<open>Whether \<open>p\<close> occurs in a string (Python's \<^verbatim>\<open>in\<close>), and a list written out.\<close>

fun contains :: "string \<Rightarrow> string \<Rightarrow> bool" where
  "contains p [] = (p = [])"
| "contains p (c # cs) = (take (length p) (c # cs) = p \<or> contains p cs)"

fun join :: "string \<Rightarrow> string list \<Rightarrow> string" where
  "join sep [] = []"
| "join sep [x] = x"
| "join sep (x # y # ys) = x @ sep @ join sep (y # ys)"

definition required_tables :: "string list" where
  "required_tables = [''podcast_projects'', ''podcast_segments'']"

text \<open>
  \<^verbatim>\<open>sys.exit(1)\<close> raises \<^verbatim>\<open>SystemExit\<close>, which \<^verbatim>\<open>except Exception\<close> does not
  catch; any exception of \<^verbatim>\<open>init_db\<close> or of the inspection is caught and reported.
\<close>

definition database_check_py :: "env \<Rightarrow> line list \<times> nat" where
  "database_check_py e =
     (if \<not> import_ok e ''Backend modules'' then ([], 1)
      else case db_tables e of
             Inl exc \<Rightarrow> ([Err ''Database check failed'' [exc]], 1)
           | Inr tables \<Rightarrow>
               (let missing_tables = filter (\<lambda>t. t \<notin> set tables) required_tables
                in if missing_tables \<noteq> []
                   then ([Err ''Missing database tables'' missing_tables], 1)
                   else ([Ok ''Database tables verified'',
                          Info (''Podcast tables: '' @
                                join '', '' (filter (contains ''podcast'') tables))], 0)))"

text \<open>
  The last program builds its list of directories by calling the accessors of the
  configuration module, outside any \<^verbatim>\<open>try\<close>: an accessor that raises ends the
  program with status 1 (\<open>config_error\<close>).  According to the specification an
  accessor creates its directory on access, so the branch for a missing directory is
  taken only if the directory is gone again when the program tests it; the branch is
  kept as the script has it.
\<close>

definition directory_names :: "string list" where
  "directory_names = [''Profiles'', ''Generations'', ''Cache'', ''SFX'', ''Music'']"

definition directory_lines :: "env \<Rightarrow> string \<Rightarrow> line list" where
  "directory_lines e n =
     (let d = dir_status_of e n
      in if dir_exists d then [Ok (n @ '': '' @ dir_path d)]
         else Err n [dir_path d, ''will be created on first use''] #
              (case mkdir_error d of
                 None \<Rightarrow> [Info (''Created: '' @ dir_path d)]
               | Some exc \<Rightarrow> [Info (''Failed to create '' @ dir_path d @ '': '' @ exc)]))"

definition data_directories_py :: "env \<Rightarrow> line list \<times> nat" where
  "data_directories_py e =
     (if \<not> import_ok e ''Backend modules'' \<or> config_error e \<noteq> None then ([], 1)
      else (concat (map (directory_lines e) directory_names), 0))"

subsection \<open>The script\<close>

text \<open>The script, section by section as its comments divide it.\<close>

definition python_steps :: "bool \<Rightarrow> env \<Rightarrow> step list" where
  "python_steps errexit e =
    [echo (Info ''Checking Python version...''),
     cmd errexit ([], python_version_rc e),
     if_failed [echo (Err ''Python 3 not found. Please install Python 3.11+'' []), exit_sh 1],
     echo (Ok ''Python 3 installed'')]"

definition reply_yes :: "env \<Rightarrow> bool" where
  "reply_yes e \<longleftrightarrow> REPLY e = ''Y'' \<or> REPLY e = ''y''"

definition venv_steps :: "bool \<Rightarrow> env \<Rightarrow> step list" where
  "venv_steps errexit e =
    [if_sh (\<lambda>s. venv_exists e)
       [echo (Info ''Virtual environment already exists at voicebox_env''),
        cmd errexit ([], read_rc e),
        if_sh (\<lambda>s. reply_yes e)
          [echo (Info ''Removing old venv...''),
           cmd errexit ([], rm_rc e)]
          [echo (Info ''Using existing venv''),
           cmd errexit ([], activate_rc e),
           assign_SKIP_VENV ''1'']]
       [],
     if_sh (\<lambda>s. SKIP_VENV s = [])
       [echo (Info ''Creating virtual environment at voicebox_env...''),
        cmd errexit ([], venv_rc e),
        if_failed [echo (Err ''Failed to create virtual environment'' []), exit_sh 1],
        echo (Ok ''Virtual environment created''),
        echo (Info ''Activating virtual environment...''),
        cmd errexit ([], activate_rc e),
        if_failed [echo (Err ''Failed to activate virtual environment'' []), exit_sh 1],
        echo (Ok ''Virtual environment activated'')]
       []]"

definition pip_upgrade_steps :: "bool \<Rightarrow> env \<Rightarrow> step list" where
  "pip_upgrade_steps errexit e =
    [echo (Info ''Upgrading pip...''),
     cmd errexit ([], pip_upgrade_rc e),
     echo (Ok ''pip upgraded'')]"

definition install_steps :: "bool \<Rightarrow> env \<Rightarrow> step list" where
  "install_steps errexit e =
    [echo (Info ''Installing Python dependencies...''),
     cmd errexit ([], pip_install_rc e),
     if_failed
       [echo (Err ''Failed to install dependencies'' []),
        echo (Info ''Please check requirements.txt and try again''),
        exit_sh 1],
     echo (Ok ''All dependencies installed'')]"

definition cuda_steps :: "bool \<Rightarrow> env \<Rightarrow> step list" where
  "cuda_steps errexit e =
    [echo (Info ''Checking CUDA (Nvidia GPU) availability...''),
     cmd errexit (cuda_check_py e),
     if_failed [echo (Err ''CUDA check failed'' [])]]"

definition imports_steps :: "bool \<Rightarrow> env \<Rightarrow> step list" where
  "imports_steps errexit e =
    [echo (Info ''Verifying core imports...''),
     cmd errexit (verify_imports_py e),
     if_failed [echo (Err ''Import verification failed'' []), exit_sh 1]]"

definition database_steps :: "bool \<Rightarrow> env \<Rightarrow> step list" where
  "database_steps errexit e =
    [echo (Info ''Checking database initialization...''),
     cmd errexit (database_check_py e),
     if_failed [echo (Err ''Database check failed'' []), exit_sh 1]]"

definition directories_steps :: "bool \<Rightarrow> env \<Rightarrow> step list" where
  "directories_steps errexit e =
    [echo (Info ''Checking data directories...''),
     cmd errexit (data_directories_py e),
     echo (Info ''Setup Complete!'')]"

definition setup_steps :: "bool \<Rightarrow> env \<Rightarrow> step list" where
  "setup_steps errexit e =
     python_steps errexit e @ venv_steps errexit e @ pip_upgrade_steps errexit e @
     install_steps errexit e @ cuda_steps errexit e @ imports_steps errexit e @
     database_steps errexit e @ directories_steps errexit e"

text \<open>
  Running the script: the shell starts with \<^verbatim>\<open>SKIP_VENV\<close> as inherited, and a script
  that reaches its end returns the status of its last command.
\<close>

definition run_script :: "bool \<Rightarrow> env \<Rightarrow> nat \<times> line list" where
  "run_script errexit e =
     (case seq (setup_steps errexit e)
             \<lparr>out = [], last_status = 0, SKIP_VENV = SKIP_VENV_env e\<rparr> of
        Inl r \<Rightarrow> r
      | Inr s \<Rightarrow> (last_status s, out s))"

definition setup_linux :: "env \<Rightarrow> nat \<times> line list" where
  "setup_linux e = run_script True e"

subsection \<open>The script as a sequence of commands\<close>

text \<open>
  Under \<^verbatim>\<open>set -e\<close> the script amounts to a list of commands, each with the lines
  printed up to and by the command (\<open>pre\<close>), its exit status (\<open>rc\<close>), and the lines
  printed after it succeeded (\<open>post\<close>).  The list depends on the environment only
  through the branches of the virtual-environment section.
\<close>

record block =
  pre :: "line list"
  rc :: nat
  post :: "line list"

fun run_blocks :: "block list \<Rightarrow> line list \<Rightarrow> nat \<times> line list" where
  "run_blocks [] acc = (0, acc)"
| "run_blocks (b # bs) acc =
     (if rc b \<noteq> 0 then (rc b, acc @ pre b) else run_blocks bs (acc @ pre b @ post b))"

definition python_block :: "env \<Rightarrow> block" where
  "python_block e =
     \<lparr>pre = [Info ''Checking Python version...''], rc = python_version_rc e,
      post = [Ok ''Python 3 installed'']\<rparr>"

definition creates_venv :: "env \<Rightarrow> bool" where
  "creates_venv e \<longleftrightarrow>
     (if venv_exists e \<and> \<not> reply_yes e then False else SKIP_VENV_env e = [])"

definition venv_blocks :: "env \<Rightarrow> block list" where
  "venv_blocks e =
     (if venv_exists e
      then [\<lparr>pre = [Info ''Virtual environment already exists at voicebox_env''],
              rc = read_rc e, post = []\<rparr>,
            if reply_yes e
            then \<lparr>pre = [Info ''Removing old venv...''], rc = rm_rc e, post = []\<rparr>
            else \<lparr>pre = [Info ''Using existing venv''], rc = activate_rc e, post = []\<rparr>]
      else []) @
     (if creates_venv e
      then [\<lparr>pre = [Info ''Creating virtual environment at voicebox_env...''],
              rc = venv_rc e, post = [Ok ''Virtual environment created'']\<rparr>,
            \<lparr>pre = [Info ''Activating virtual environment...''],
              rc = activate_rc e, post = [Ok ''Virtual environment activated'']\<rparr>]
      else [])"

definition pip_upgrade_block :: "env \<Rightarrow> block" where
  "pip_upgrade_block e =
     \<lparr>pre = [Info ''Upgrading pip...''], rc = pip_upgrade_rc e, post = [Ok ''pip upgraded'']\<rparr>"

definition install_block :: "env \<Rightarrow> block" where
  "install_block e =
     \<lparr>pre = [Info ''Installing Python dependencies...''], rc = pip_install_rc e,
      post = [Ok ''All dependencies installed'']\<rparr>"

definition cuda_block :: "env \<Rightarrow> block" where
  "cuda_block e =
     \<lparr>pre = Info ''Checking CUDA (Nvidia GPU) availability...'' # fst (cuda_check_py e),
      rc = snd (cuda_check_py e), post = []\<rparr>"

definition imports_block :: "env \<Rightarrow> block" where
  "imports_block e =
     \<lparr>pre = Info ''Verifying core imports...'' # fst (verify_imports_py e),
      rc = snd (verify_imports_py e), post = []\<rparr>"

definition database_block :: "env \<Rightarrow> block" where
  "database_block e =
     \<lparr>pre = Info ''Checking database initialization...'' # fst (database_check_py e),
      rc = snd (database_check_py e), post = []\<rparr>"

definition directories_block :: "env \<Rightarrow> block" where
  "directories_block e =
     \<lparr>pre = Info ''Checking data directories...'' # fst (data_directories_py e),
      rc = snd (data_directories_py e), post = [Info ''Setup Complete!'']\<rparr>"

definition blocks_before_install :: "env \<Rightarrow> block list" where
  "blocks_before_install e = python_block e # venv_blocks e @ [pip_upgrade_block e]"

definition blocks_before_database :: "env \<Rightarrow> block list" where
  "blocks_before_database e =
     blocks_before_install e @ [install_block e, cuda_block e, imports_block e]"

definition blocks :: "env \<Rightarrow> block list" where
  "blocks e = blocks_before_database e @ [database_block e, directories_block e]"

text \<open>
  The exit statuses of the commands the script runs, in order, and the status of the
  first of them that failed (0 if none did).  Making a missing data directory is not a
  command of the script: it happens inside the last Python program, which catches its
  failure.
\<close>

definition command_statuses :: "env \<Rightarrow> nat list" where
  "command_statuses e = map rc (blocks e)"

definition first_failure :: "nat list \<Rightarrow> nat" where
  "first_failure rcs = (case filter (\<lambda>x. x \<noteq> 0) rcs of [] \<Rightarrow> 0 | x # _ \<Rightarrow> x)"

definition missing_tables :: "string list \<Rightarrow> string list" where
  "missing_tables tables = filter (\<lambda>t. t \<notin> set tables) required_tables"

text \<open>
  One command of that sequence as a step of the shell, and the result of a run that has
  ended or reached the end of the script.
\<close>

definition after_block :: "block \<Rightarrow> step" where
  "after_block b s =
     (if rc b \<noteq> 0 then Inl (rc b, out s @ pre b)
      else Inr (s\<lparr>out := out s @ pre b @ post b, last_status := 0\<rparr>))"

definition result_of :: "(nat \<times> line list) + sh_state \<Rightarrow> nat \<times> line list" where
  "result_of r = (case r of Inl x \<Rightarrow> x | Inr s \<Rightarrow> (last_status s, out s))"

fun is_err :: "line \<Rightarrow> bool" where
  "is_err (Err l vs) = True"
| "is_err (Ok l) = False"
| "is_err (Info l) = False"

text \<open>The lines a list of commands can print.\<close>

definition lines_of :: "block list \<Rightarrow> line set" where
  "lines_of bs = (\<Union>b \<in> set bs. set (pre b) \<union> set (post b))"

text \<open>
  Sample environments: a clean machine, one on which the dependency install fails, and
  one whose data store lacks a table.
\<close>

definition good_env :: env where
  "good_env =
     \<lparr>python_version_rc = 0, venv_exists = False, read_rc = 0, REPLY = ''n'', rm_rc = 0,
      SKIP_VENV_env = [], venv_rc = 0, activate_rc = 0, pip_upgrade_rc = 0, pip_install_rc = 0,
      import_result = (\<lambda>m. Imported), cuda_probe = Inr None,
      db_tables = Inr [''profiles'', ''podcast_projects'', ''podcast_segments''],
      config_error = None,
      dir_status_of = (\<lambda>n. \<lparr>dir_path = ''data/'' @ n, dir_exists = True, mkdir_error = None\<rparr>)\<rparr>"

definition failed_install_env :: env where
  "failed_install_env = good_env\<lparr>pip_install_rc := 1\<rparr>"

definition missing_table_env :: env where
  "missing_table_env = good_env\<lparr>db_tables := Inr [''profiles'', ''podcast_projects'']\<rparr>"


section \<open>Script parsing, pipeline and story retrieval\<close>

text \<open>
  Modelled from the spec: the script parser, the pipeline orchestrator and the story
  service are Python modules of the backend that are not among the sources, so every
  definition of this section is written from the specification.  First the entity
  PodcastSegment: speaker id, literal text (empty for markers), resolved profile id
  (nullable), marker type (\<^verbatim>\<open>text\<close>, \<^verbatim>\<open>sound_effect\<close> or \<^verbatim>\<open>music_cue\<close>),
  marker value, status, and linked Generation id, ordered by a zero-based
  \<^verbatim>\<open>segment_order\<close>.
\<close>

datatype marker_type = TextSegment | SoundEffect | MusicCue

record segment =
  ps_order :: nat
  ps_speaker :: string
  ps_text :: string
  ps_profile_id :: "string option"
  ps_marker_type :: marker_type
  ps_marker_value :: "string option"
  ps_status :: string
  ps_generation_id :: "nat option"

text \<open>
  Modelled from the spec: what one body line of a script becomes, and the helpers that
  recognise the three forms of line the specification names.
\<close>

datatype parsed_line = TextLine string string | MarkerLine marker_type string | NoSegment

definition strip :: "string \<Rightarrow> string" where
  "strip s = rev (dropWhile (\<lambda>c. c = CHR '' '') (rev (dropWhile (\<lambda>c. c = CHR '' '') s)))"

definition starts_with :: "string \<Rightarrow> string \<Rightarrow> bool" where
  "starts_with p s \<longleftrightarrow> take (length p) s = p"

definition marker_name :: "string \<Rightarrow> string \<Rightarrow> string" where
  "marker_name tag t = strip (butlast (drop (length tag) t))"

text \<open>
  Modelled from the spec: the script parser is missing.  Body parsing rules: lines
  matching \<^verbatim>\<open>speaker_id: text\<close> become text segments attributed to that speaker, in
  document order; lines matching \<^verbatim>\<open>[sound_effect: name]\<close> become marker segments of
  type \<^verbatim>\<open>sound_effect\<close>; lines matching \<^verbatim>\<open>[music_cue: name]\<close> become marker
  segments of type \<^verbatim>\<open>music_cue\<close>; section headers (\<^verbatim>\<open>## ...\<close>) and blank lines
  are ignored and do not produce segments.  A line of none of these forms produces no
  segment either.
\<close>

definition classify_line :: "string \<Rightarrow> parsed_line" where
  "classify_line l =
     (let t = strip l in
      if t = [] then NoSegment
      else if starts_with ''##'' t then NoSegment
      else if starts_with ''[sound_effect:'' t \<and> last t = CHR '']''
        then MarkerLine SoundEffect (marker_name ''[sound_effect:'' t)
      else if starts_with ''[music_cue:'' t \<and> last t = CHR '']''
        then MarkerLine MusicCue (marker_name ''[music_cue:'' t)
      else if CHR '':'' \<in> set t \<and> strip (takeWhile (\<lambda>c. c \<noteq> CHR '':'') t) \<noteq> []
        then TextLine (strip (takeWhile (\<lambda>c. c \<noteq> CHR '':'') t))
                      (strip (drop 1 (dropWhile (\<lambda>c. c \<noteq> CHR '':'') t)))
      else NoSegment)"

text \<open>
  Modelled from the spec: segments are ordered by a zero-based \<^verbatim>\<open>segment_order\<close>,
  markers have empty text, a segment starts \<^verbatim>\<open>pending\<close>, and each speaker is
  resolved to a voice profile or to a null profile reference (\<open>profile_of\<close>).
\<close>

fun segments_from :: "(string \<Rightarrow> string option) \<Rightarrow> nat \<Rightarrow> parsed_line list \<Rightarrow> segment list" where
  "segments_from profile_of k [] = []"
| "segments_from profile_of k (NoSegment # ls) = segments_from profile_of k ls"
| "segments_from profile_of k (TextLine sp tx # ls) =
     \<lparr>ps_order = k, ps_speaker = sp, ps_text = tx, ps_profile_id = profile_of sp,
      ps_marker_type = TextSegment, ps_marker_value = None, ps_status = ''pending'',
      ps_generation_id = None\<rparr> # segments_from profile_of (Suc k) ls"
| "segments_from profile_of k (MarkerLine m v # ls) =
     \<lparr>ps_order = k, ps_speaker = [], ps_text = [], ps_profile_id = None,
      ps_marker_type = m, ps_marker_value = Some v, ps_status = ''pending'',
      ps_generation_id = None\<rparr> # segments_from profile_of (Suc k) ls"

definition body_lines :: "string \<Rightarrow> parsed_line list" where
  "body_lines body = map classify_line (split_on (CHR 0x0A) body)"

definition parse_body :: "(string \<Rightarrow> string option) \<Rightarrow> string \<Rightarrow> segment list" where
  "parse_body profile_of body = segments_from profile_of 0 (body_lines body)"

fun is_text_line :: "parsed_line \<Rightarrow> bool" where
  "is_text_line (TextLine sp tx) = True"
| "is_text_line (MarkerLine m v) = False"
| "is_text_line NoSegment = False"

fun is_marker_line :: "parsed_line \<Rightarrow> bool" where
  "is_marker_line (MarkerLine m v) = True"
| "is_marker_line (TextLine sp tx) = False"
| "is_marker_line NoSegment = False"

text \<open>
  Modelled from the spec: the numbers N of text segments and M of marker segments a
  script contains.
\<close>

definition count_text :: "string \<Rightarrow> nat" where
  "count_text body = length (filter is_text_line (body_lines body))"

definition count_markers :: "string \<Rightarrow> nat" where
  "count_markers body = length (filter is_marker_line (body_lines body))"

text \<open>
  Modelled from the spec: the entities Generation (one produced audio artifact),
  StoryItem (a reference to a Generation, or a marker with no generation, with a start
  timecode) and PodcastProject with its segments, counters, and the generations and
  items of its story.
\<close>

record generation =
  gen_id :: nat
  gen_profile_id :: "string option"
  gen_text :: string
  gen_audio_path :: "string option"
  gen_duration :: nat

record story_item =
  item_generation_id :: "nat option"
  item_marker_type :: marker_type
  item_marker_value :: "string option"
  item_start :: nat

record pipeline_project =
  pp_state :: string
  pp_segments :: "segment list"
  pp_total_segments :: nat
  pp_completed_count :: nat
  pp_failed_count :: nat
  pp_current_segment_index :: nat
  pp_generations :: "generation list"
  pp_items :: "story_item list"
  pp_next_timecode :: nat

text \<open>
  Modelled from the spec: the orchestrator's Create transition is missing.  It persists
  the project and the full ordered segment list from the parse results, in state
  \<^verbatim>\<open>idle\<close>, linked to a story with no items yet.
\<close>

definition create_project :: "(string \<Rightarrow> string option) \<Rightarrow> string \<Rightarrow> pipeline_project" where
  "create_project profile_of body =
     \<lparr>pp_state = ''idle'', pp_segments = parse_body profile_of body,
      pp_total_segments = length (parse_body profile_of body),
      pp_completed_count = 0, pp_failed_count = 0, pp_current_segment_index = 0,
      pp_generations = [], pp_items = [], pp_next_timecode = 0\<rparr>"

text \<open>
  Modelled from the spec: the retry policy is missing.  A failed segment is retried up to
  a configured maximum of attempts; \<open>attempt k\<close> is the outcome of attempt \<open>k\<close>, the
  duration of the clip when it succeeds.
\<close>

definition first_success :: "(nat \<Rightarrow> nat option) \<Rightarrow> nat \<Rightarrow> nat option" where
  "first_success attempt max_retries =
     (case filter (\<lambda>r. r \<noteq> None) (map attempt [0..<max_retries]) of
        [] \<Rightarrow> None
      | r # _ \<Rightarrow> r)"

text \<open>
  Modelled from the spec: the store's update of one segment row, and the outcome of a
  segment whose attempts are exhausted (marked \<^verbatim>\<open>failed\<close>, \<^verbatim>\<open>failed_count\<close>
  incremented, state \<^verbatim>\<open>error\<close>).
\<close>

definition set_segment :: "segment \<Rightarrow> segment list \<Rightarrow> segment list" where
  "set_segment s segs = map (\<lambda>x. if ps_order x = ps_order s then s else x) segs"

definition segment_failed :: "segment \<Rightarrow> pipeline_project \<Rightarrow> pipeline_project" where
  "segment_failed s p =
     p\<lparr>pp_state := ''error'',
       pp_segments := set_segment (s\<lparr>ps_status := ''failed''\<rparr>) (pp_segments p),
       pp_failed_count := pp_failed_count p + 1\<rparr>"

text \<open>
  Modelled from the spec: the StoryItem recorded for a marker (no generation), the
  Generation persisted for a synthesized text segment, and the StoryItem that refers
  to it, each at the next sequential timecode.
\<close>

definition marker_item :: "segment \<Rightarrow> pipeline_project \<Rightarrow> story_item" where
  "marker_item s p =
     \<lparr>item_generation_id = None, item_marker_type = ps_marker_type s,
      item_marker_value = ps_marker_value s, item_start = pp_next_timecode p\<rparr>"

definition new_generation :: "segment \<Rightarrow> pipeline_project \<Rightarrow> nat \<Rightarrow> generation" where
  "new_generation s p duration =
     \<lparr>gen_id = length (pp_generations p), gen_profile_id = ps_profile_id s,
      gen_text = ps_text s, gen_audio_path = Some (''generations/'' @ ps_speaker s),
      gen_duration = duration\<rparr>"

definition voice_item :: "pipeline_project \<Rightarrow> story_item" where
  "voice_item p =
     \<lparr>item_generation_id = Some (length (pp_generations p)), item_marker_type = TextSegment,
      item_marker_value = None, item_start = pp_next_timecode p\<rparr>"

text \<open>
  Modelled from the spec: the orchestrator's per-segment step is missing.  For a text
  segment it resolves the mapped profile (an unmapped speaker blocks generation) and
  invokes synthesis; on success it persists a Generation, creates the corresponding
  StoryItem at the next sequential timecode, increments \<^verbatim>\<open>completed_count\<close> and
  advances \<^verbatim>\<open>current_segment_index\<close>.  For a marker segment it records the marker as a
  StoryItem without invoking synthesis.  A segment whose attempts are exhausted is marked
  \<^verbatim>\<open>failed\<close>, \<^verbatim>\<open>failed_count\<close> is incremented, and the state becomes \<^verbatim>\<open>error\<close>.
\<close>

definition process_segment ::
  "(segment \<Rightarrow> nat \<Rightarrow> nat option) \<Rightarrow> nat \<Rightarrow> segment \<Rightarrow> pipeline_project \<Rightarrow> pipeline_project" where
  "process_segment tts max_retries s p =
     (if ps_marker_type s \<noteq> TextSegment then
        p\<lparr>pp_segments := set_segment (s\<lparr>ps_status := ''completed''\<rparr>) (pp_segments p),
          pp_items := pp_items p @ [marker_item s p],
          pp_completed_count := pp_completed_count p + 1,
          pp_current_segment_index := pp_current_segment_index p + 1\<rparr>
      else if ps_profile_id s = None then segment_failed s p
      else
        case first_success (tts s) max_retries of
          None \<Rightarrow> segment_failed s p
        | Some duration \<Rightarrow>
            p\<lparr>pp_segments :=
                set_segment
                  (s\<lparr>ps_status := ''completed'',
                     ps_generation_id := Some (length (pp_generations p))\<rparr>)
                  (pp_segments p),
              pp_generations := pp_generations p @ [new_generation s p duration],
              pp_items := pp_items p @ [voice_item p],
              pp_next_timecode := pp_next_timecode p + duration,
              pp_completed_count := pp_completed_count p + 1,
              pp_current_segment_index := pp_current_segment_index p + 1\<rparr>)"

text \<open>
  Modelled from the spec: the orchestrator's run is missing.  Segments are processed
  sequentially in order, skipping those already \<^verbatim>\<open>completed\<close>; the run stops at a
  failed segment, leaving the state \<^verbatim>\<open>error\<close>; when every segment is done the state
  becomes \<^verbatim>\<open>completed\<close>.
\<close>

fun run_segments ::
  "(segment \<Rightarrow> nat \<Rightarrow> nat option) \<Rightarrow> nat \<Rightarrow> segment list \<Rightarrow> pipeline_project \<Rightarrow> pipeline_project" where
  "run_segments tts max_retries [] p = p\<lparr>pp_state := ''completed''\<rparr>"
| "run_segments tts max_retries (s # ss) p =
     (if ps_status s = ''completed'' then run_segments tts max_retries ss p
      else
        let p' = process_segment tts max_retries s p
        in if pp_state p' = ''error'' then p' else run_segments tts max_retries ss p')"

text \<open>
  Modelled from the spec: Start/Resume is missing.  If the state is \<^verbatim>\<open>idle\<close> or
  \<^verbatim>\<open>paused\<close> it sets the state \<^verbatim>\<open>generating\<close> and begins sequential processing.
\<close>

definition start_pipeline ::
  "(segment \<Rightarrow> nat \<Rightarrow> nat option) \<Rightarrow> nat \<Rightarrow> pipeline_project \<Rightarrow> pipeline_project" where
  "start_pipeline tts max_retries p =
     (if pp_state p = ''idle'' \<or> pp_state p = ''paused''
      then run_segments tts max_retries (pp_segments p) (p\<lparr>pp_state := ''generating''\<rparr>)
      else p)"

text \<open>
  Modelled from the spec: the retrieval of a story's items is missing.  The join from
  items to generations is an outer join: every item yields a row, with its generation
  when it refers to one.  The inner join, which yields a row only for an item and a
  generation that match, is given for comparison.
\<close>

definition items_outer_join :: "pipeline_project \<Rightarrow> (story_item \<times> generation option) list" where
  "items_outer_join p =
     map (\<lambda>it. (it, case item_generation_id it of
                      None \<Rightarrow> None
                    | Some g \<Rightarrow> find (\<lambda>x. gen_id x = g) (pp_generations p)))
         (pp_items p)"

definition items_inner_join :: "pipeline_project \<Rightarrow> (story_item \<times> generation) list" where
  "items_inner_join p =
     concat (map (\<lambda>it. map (\<lambda>x. (it, x))
                          (filter (\<lambda>x. item_generation_id it = Some (gen_id x))
                             (pp_generations p)))
                 (pp_items p))"

definition export_timeline :: "pipeline_project \<Rightarrow> (story_item \<times> generation option) list" where
  "export_timeline p = items_outer_join p"

definition is_marker_item :: "story_item \<times> generation option \<Rightarrow> bool" where
  "is_marker_item r \<longleftrightarrow> item_generation_id (fst r) = None"

text \<open>
  An item without a generation, and the consistency of the store: generation ids are
  positions, and every reference of an item is to a stored generation.
\<close>

definition no_generation :: "story_item \<Rightarrow> bool" where
  "no_generation it \<longleftrightarrow> item_generation_id it = None"

definition store_ok :: "pipeline_project \<Rightarrow> bool" where
  "store_ok p \<longleftrightarrow>
     map gen_id (pp_generations p) = [0..<length (pp_generations p)] \<and>
     (\<forall>it \<in> set (pp_items p). \<forall>g. item_generation_id it = Some g \<longrightarrow>
        g < length (pp_generations p))"

text \<open>A script with two lines of dialogue around a sound effect, and a synthesis that succeeds.\<close>

definition sample_body :: string where
  "sample_body =
     ''## Intro'' @ [CHR 0x0A] @
     ''host1: Welcome to the show'' @ [CHR 0x0A] @
     [CHR 0x0A] @
     ''[sound_effect: applause]'' @ [CHR 0x0A] @
     ''guest1: Glad to be here''"

definition sample_profiles :: "string \<Rightarrow> string option" where
  "sample_profiles sp = Some (''profile-'' @ sp)"

definition sample_tts :: "segment \<Rightarrow> nat \<Rightarrow> nat option" where
  "sample_tts s k = (if k = 0 then None else Some (length (ps_text s)))"

section \<open>The client against the route table\<close>

text \<open>
  C1, as stated, fails: the route \<^verbatim>\<open>GET /profiles\<close> of the HTTP surface has no
  callable in the generated client, so it is not true that every route has exactly one.
\<close>

theorem client_route_gap_counterexample:
  "(GET, ''/profiles'') \<in> set http_surface \<and> length (callables_for (GET, ''/profiles'')) \<noteq> 1"
  by code_simp

text \<open>
  C1 (amended): every callable of the generated client corresponds to exactly one route of
  the HTTP surface with the same method and path; every route of the surface other than
  the four \<^verbatim>\<open>/profiles\<close> routes has exactly one callable with its method and
  path, and the four \<^verbatim>\<open>/profiles\<close> routes have none.  The surface lists 18
  distinct routes, the client 14 callables.
\<close>

theorem client_mirrors_podcast_routes:
  "(\<forall>c \<in> set DefaultService. length (routes_for c) = 1) \<and>
   (\<forall>r \<in> set http_surface. length (callables_for r) = (if is_profile_route r then 0 else 1)) \<and>
   distinct http_surface \<and> length DefaultService = 14 \<and> length http_surface = 18"
  by code_simp

theorem client_mirrors_podcast_routes_witness:
  "DefaultService ! 2 \<in> set DefaultService \<and> length (routes_for (DefaultService ! 2)) = 1 \<and>
   (POST, ''/podcast/projects/{id}/export'') \<in> set http_surface \<and>
   length (callables_for (POST, ''/podcast/projects/{id}/export'')) = 1 \<and>
   (POST, ''/profiles/{id}/samples'') \<in> set http_surface \<and>
   length (callables_for (POST, ''/profiles/{id}/samples'')) = 0"
proof -
  have c: "DefaultService ! 2 \<in> set DefaultService" by code_simp
  have r1: "(POST, ''/podcast/projects/{id}/export'') \<in> set http_surface" by code_simp
  have r2: "(POST, ''/profiles/{id}/samples'') \<in> set http_surface" by code_simp
  have p1: "\<not> is_profile_route (POST, ''/podcast/projects/{id}/export'')" by code_simp
  have p2: "is_profile_route (POST, ''/profiles/{id}/samples'')" by code_simp
  from client_mirrors_podcast_routes c r1 r2 p1 p2 show ?thesis by auto
qed

section \<open>The progress-stream subscription over the life of the component\<close>























subsection \<open>Exactly one subscription while nothing goes wrong\<close>












section \<open>Stream events, export\<close>

text \<open>
  C4, as stated, fails: not every \<^verbatim>\<open>progress\<close> message updates the project from its
  payload.  The handler guards the update with \<^verbatim>\<open>project && data.data\<close>, so a
  \<^verbatim>\<open>progress\<close> event with a payload that arrives before the first fetch has
  returned, while no project is held, leaves the hook exactly as it was.
\<close>

theorem progress_before_load_counterexample:
  "project loading_hook = None \<and>
   onmessage ''p1'' (Event ''progress'' (Some demo_data)) loading_hook = loading_hook"
  by (simp add: onmessage_def loading_hook_def)

text \<open>
  C4 (amended): the handler of a progress-stream message maps the event kind to state
  updates.  A \<^verbatim>\<open>progress\<close> event sets the project's pipeline state and counters from
  the payload when a project is loaded and the event carries a payload, and issues no
  request; when no project is loaded, or the event carries no payload, it changes
  nothing.  Each of \<^verbatim>\<open>segment_complete\<close>, \<^verbatim>\<open>segment_failed\<close>, \<^verbatim>\<open>complete\<close> and
  \<^verbatim>\<open>error\<close> issues the GET of the full project and leaves the project held by the
  hook as it was, whatever the payload; \<^verbatim>\<open>complete\<close> and \<^verbatim>\<open>error\<close> also
  clear the generating indicator, which the two segment events leave alone.  The project
  the re-fetch returns replaces the one held.
\<close>

theorem onmessage_event_mapping:
  "(project h = Some p \<longrightarrow>
      (\<exists>p'. project (onmessage projectId (Event ''progress'' (Some d)) h) = Some p' \<and>
         pipeline_state p' = data_pipeline_state d \<and>
         current_segment_index p' = data_current_segment_index d \<and>
         completed_count p' = data_completed_count d \<and>
         failed_count p' = data_failed_count d \<and>
         total_segments p' = data_total_segments d) \<and>
      requests (onmessage projectId (Event ''progress'' (Some d)) h) = requests h) \<and>
   (project h = None \<longrightarrow> onmessage projectId (Event ''progress'' e) h = h) \<and>
   onmessage projectId (Event ''progress'' None) h = h \<and>
   (ty \<in> {''segment_complete'', ''segment_failed'', ''complete'', ''error''} \<longrightarrow>
      requests (onmessage projectId (Event ty e) h) =
        requests h @ [Request GET (''/podcast/projects/'' @ projectId)] \<and>
      project (onmessage projectId (Event ty e) h) = project h) \<and>
   (ty \<in> {''complete'', ''error''} \<longrightarrow> \<not> isGenerating (onmessage projectId (Event ty e) h)) \<and>
   (ty \<in> {''segment_complete'', ''segment_failed''} \<longrightarrow>
      isGenerating (onmessage projectId (Event ty e) h) = isGenerating h) \<and>
   project (fetchProject_settled (Inr q) h) = Some q"
  by (auto simp add: onmessage_def apply_progress_def fetchProject_def
        fetchProject_settled_def project_url_def split: option.splits)

theorem onmessage_event_mapping_witness:
  "project demo_hook = Some demo_project \<and>
   (\<exists>p'. project (onmessage ''p1'' (Event ''progress'' (Some demo_data)) demo_hook) = Some p' \<and>
      completed_count p' = 1) \<and>
   project loading_hook = None \<and>
   onmessage ''p1'' (Event ''progress'' (Some demo_data)) loading_hook = loading_hook \<and>
   ''error'' \<in> {''segment_complete'', ''segment_failed'', ''complete'', ''error''} \<and>
   ''error'' \<in> {''complete'', ''error''} \<and>
   requests (onmessage ''p1'' (Event ''error'' None) demo_hook) =
     [Request GET ''/podcast/projects/p1''] \<and>
   \<not> isGenerating (onmessage ''p1'' (Event ''error'' None) demo_hook) \<and>
   ''segment_failed'' \<in> {''segment_complete'', ''segment_failed''} \<and>
   isGenerating (onmessage ''p1'' (Event ''segment_failed'' None) demo_hook)"
proof -
  have h: "project demo_hook = Some demo_project" by (simp add: demo_hook_def)
  have l: "project loading_hook = None" by (simp add: loading_hook_def)
  have r: "requests demo_hook = []" by (simp add: demo_hook_def)
  have g: "isGenerating demo_hook" by (simp add: demo_hook_def)
  have c: "data_completed_count demo_data = 1" by (simp add: demo_data_def)
  note m1 = onmessage_event_mapping
    [of demo_hook demo_project "''p1''" demo_data None "''error''" demo_project]
  note m2 = onmessage_event_mapping
    [of demo_hook demo_project "''p1''" demo_data None "''segment_failed''" demo_project]
  note m3 = onmessage_event_mapping
    [of loading_hook demo_project "''p1''" demo_data "Some demo_data" "''error''" demo_project]
  from m1 h c have 1: "\<exists>p'. project (onmessage ''p1'' (Event ''progress'' (Some demo_data))
      demo_hook) = Some p' \<and> completed_count p' = 1" by auto
  from m1 r have 2: "requests (onmessage ''p1'' (Event ''error'' None) demo_hook) =
     [Request GET ''/podcast/projects/p1'']" by simp
  from m1 have 3: "\<not> isGenerating (onmessage ''p1'' (Event ''error'' None) demo_hook)" by simp
  from m2 g have 4: "isGenerating (onmessage ''p1'' (Event ''segment_failed'' None) demo_hook)"
    by simp
  from m3 l have 5:
    "onmessage ''p1'' (Event ''progress'' (Some demo_data)) loading_hook = loading_hook"
    by blast
  from h l 1 2 3 4 5 show ?thesis by simp
qed

text \<open>
  C9: a \<^verbatim>\<open>progress\<close> event with a payload, received while a project is loaded,
  changes only the project's \<^verbatim>\<open>pipeline_state\<close>, \<^verbatim>\<open>current_segment_index\<close>,
  \<^verbatim>\<open>completed_count\<close>, \<^verbatim>\<open>failed_count\<close> and \<^verbatim>\<open>total_segments\<close>: putting the
  old values of these five fields back gives the old project, every other field
  (the segments list among them, and any field beyond the ones named in the record)
  being as before; and nothing of the hook's state but the project changes.
\<close>

theorem progress_event_frame:
  assumes "project h = Some p"
  shows "\<exists>p'. project (onmessage projectId (Event ''progress'' (Some d)) h) = Some p' \<and>
           p'\<lparr>pipeline_state := pipeline_state p,
              current_segment_index := current_segment_index p,
              completed_count := completed_count p,
              failed_count := failed_count p,
              total_segments := total_segments p\<rparr> = p \<and>
           segments p' = segments p \<and>
           (onmessage projectId (Event ''progress'' (Some d)) h)\<lparr>project := Some p\<rparr> = h"
  using assms by (simp add: onmessage_def apply_progress_def)

theorem progress_event_frame_witness:
  "project demo_hook = Some demo_project \<and>
   (\<exists>p'. project (onmessage ''p1'' (Event ''progress'' (Some demo_data)) demo_hook) = Some p' \<and>
      segments p' = segments demo_project \<and> script_content p' = ''host1: Hello'')"
proof -
  have h: "project demo_hook = Some demo_project" by (simp add: demo_hook_def)
  from progress_event_frame [OF h, of "''p1''" demo_data]
  obtain p' where a: "project (onmessage ''p1'' (Event ''progress'' (Some demo_data)) demo_hook) = Some p'"
    and b: "p'\<lparr>pipeline_state := pipeline_state demo_project,
              current_segment_index := current_segment_index demo_project,
              completed_count := completed_count demo_project,
              failed_count := failed_count demo_project,
              total_segments := total_segments demo_project\<rparr> = demo_project"
    and c: "segments p' = segments demo_project" by blast
  from b have "script_content (p'\<lparr>pipeline_state := pipeline_state demo_project,
              current_segment_index := current_segment_index demo_project,
              completed_count := completed_count demo_project,
              failed_count := failed_count demo_project,
              total_segments := total_segments demo_project\<rparr>) = script_content demo_project"
    by simp
  then have "script_content p' = ''host1: Hello''" by (simp add: demo_project_def)
  with h a c show ?thesis by blast
qed

text \<open>
  C10: for every project id and every blob the export route returns, whatever its media
  type and bytes, \<^verbatim>\<open>exportAudio\<close> saves that blob under the file name
  \<^verbatim>\<open>podcast-<projectId>.wav\<close>, after a POST to the project's export route; a failed
  request saves nothing.
\<close>

theorem exportAudio_saves_as_wav:
  "fst (exportAudio projectId (Inr b) h) = Inr b \<and>
   downloads (snd (exportAudio projectId (Inr b) h)) =
     downloads h @ [\<lparr>filename = ''podcast-'' @ projectId @ ''.wav'', content = b\<rparr>] \<and>
   requests (snd (exportAudio projectId (Inr b) h)) =
     requests h @ [Request POST (''/podcast/projects/'' @ projectId @ ''/export'')] \<and>
   downloads (snd (exportAudio projectId (Inl err) h)) = downloads h"
  by (simp add: exportAudio_def export_filename_def project_url_def Let_def)

lemma exportAudio_mp3_example:
  "downloads (snd (exportAudio ''p1'' (Inr (Blob ''audio/mpeg'' [73, 68, 51])) demo_hook)) =
     [\<lparr>filename = ''podcast-p1.wav'', content = Blob ''audio/mpeg'' [73, 68, 51]\<rparr>]"
  by (simp add: exportAudio_def export_filename_def project_url_def Let_def demo_hook_def)

text \<open>
  After a \<^verbatim>\<open>progress\<close> event has replaced the project, the effect on \<^verbatim>\<open>project\<close>
  sets the generating indicator from the pipeline state the event carried.
\<close>

lemma progress_then_sync:
  assumes "project h = Some p"
  shows "isGenerating (sync_isGenerating (onmessage projectId (Event ''progress'' (Some d)) h)) =
         (data_pipeline_state d = ''generating'')"
  using assms by (simp add: sync_isGenerating_def onmessage_def apply_progress_def)

section \<open>Project list: delete, rendering\<close>

text \<open>
  C7: the delete action sends the DELETE request and removes the project from the list
  only after the operator confirms.  If the confirmation is declined, the handler
  returns with the state as it was: no request, the same projects.  Whenever a request
  was sent or the list changed, the operator had confirmed; and after a confirmed,
  successful delete exactly the DELETE of that project was sent and the projects with
  that id are gone from the list, the others kept in order.  A rejected request leaves
  the list as it was.
\<close>

theorem handleDelete_only_after_confirm:
  "handleDelete projectId False rejection s = (None, s) \<and>
   (requests_list (snd (handleDelete projectId confirmed rejection s)) \<noteq> requests_list s \<or>
    projects (snd (handleDelete projectId confirmed rejection s)) \<noteq> projects s
      \<longrightarrow> confirmed) \<and>
   snd (handleDelete projectId True None s) =
     s\<lparr>projects := filter (\<lambda>p. pid p \<noteq> projectId) (projects s),
       deletingId := None,
       requests_list := requests_list s @ [Request DELETE (''/podcast/projects/'' @ projectId)]\<rparr> \<and>
   projects (snd (handleDelete projectId True (Some err) s)) = projects s"
  by (auto simp add: handleDelete_def deleteProject_def project_url_def Let_def)

theorem handleDelete_only_after_confirm_witness:
  "projects (snd (handleDelete ''p1'' True None demo_list)) \<noteq> projects demo_list \<and>
   projects (snd (handleDelete ''p1'' True None demo_list)) = [empty_project] \<and>
   requests_list (snd (handleDelete ''p1'' True None demo_list)) =
     [Request DELETE ''/podcast/projects/p1''] \<and>
   snd (handleDelete ''p1'' False None demo_list) = demo_list"
proof -
  have p: "projects demo_list = [demo_project, empty_project]" by (simp add: demo_list_def)
  have r: "requests_list demo_list = []" by (simp add: demo_list_def)
  have i: "pid demo_project = ''p1''" "pid empty_project = ''p2''"
    by (simp_all add: demo_project_def empty_project_def)
  note t = handleDelete_only_after_confirm [of "''p1''" None demo_list True]
  from t have "snd (handleDelete ''p1'' True None demo_list) =
     demo_list\<lparr>projects := filter (\<lambda>p. pid p \<noteq> ''p1'') (projects demo_list),
       deletingId := None,
       requests_list := requests_list demo_list @ [Request DELETE (''/podcast/projects/'' @ ''p1'')]\<rparr>"
    by blast
  with p r i have a: "projects (snd (handleDelete ''p1'' True None demo_list)) = [empty_project]"
    and b: "requests_list (snd (handleDelete ''p1'' True None demo_list)) =
     [Request DELETE ''/podcast/projects/p1'']" by simp_all
  from t have c: "snd (handleDelete ''p1'' False None demo_list) = demo_list" by simp
  from a p have d: "projects (snd (handleDelete ''p1'' True None demo_list)) \<noteq> projects demo_list"
    by simp
  from a b c d show ?thesis by simp
qed

text \<open>
  C6, as stated, fails: a project whose pipeline state is \<^verbatim>\<open>generating\<close> and whose
  total segment count is 0 is rendered without a counter.
\<close>

theorem counter_hidden_counterexample:
  "pipeline_state empty_project \<noteq> ''idle'' \<and>
   PodcastList id demo_list =
     Items [render_item id None demo_project, render_item id None empty_project] \<and>
   item_counter (render_item id None empty_project) = None"
  by (simp add: PodcastList_def demo_list_def render_item_def empty_project_def demo_project_def)

text \<open>
  C6 (amended): when the list is shown, one item is rendered per project, in order, and
  the item of a project shows its name, its description when there is a non-empty one,
  a status badge whose text is the pipeline state and whose colour classes are those of
  that state, and the relative last-updated time.  The completed/total counter is shown
  exactly when the pipeline state is not \<^verbatim>\<open>idle\<close> and the total segment count is
  greater than zero.  The five pipeline states have five different badge colourings.
\<close>

theorem list_item_rendering:
  "(PodcastList fmt s = Items vs \<longrightarrow>
      vs = map (render_item fmt (deletingId s)) (projects s) \<and>
      length vs = length (projects s)) \<and>
   item_name (render_item fmt del p) = name p \<and>
   item_description (render_item fmt del p) =
     (if description p = None \<or> description p = Some [] then None else description p) \<and>
   badge_text (render_item fmt del p) = pipeline_state p \<and>
   badge_class (render_item fmt del p) = getStatusBadge (pipeline_state p) \<and>
   item_updated (render_item fmt del p) = fmt (updated_at p) \<and>
   item_counter (render_item fmt del p) =
     (if pipeline_state p \<noteq> ''idle'' \<and> 0 < total_segments p
      then Some (completed_count p, total_segments p) else None) \<and>
   distinct (map getStatusBadge [''idle'', ''generating'', ''paused'', ''completed'', ''error''])"
proof -
  have list: "PodcastList fmt s = Items vs \<longrightarrow>
      vs = map (render_item fmt (deletingId s)) (projects s) \<and>
      length vs = length (projects s)"
    by (auto simp add: PodcastList_def split: if_splits)
  have descr: "item_description (render_item fmt del p) =
     (if description p = None \<or> description p = Some [] then None else description p)"
    by (cases "description p") (simp_all add: render_item_def)
  have badges:
    "distinct (map getStatusBadge [''idle'', ''generating'', ''paused'', ''completed'', ''error''])"
    by code_simp
  from list descr badges show ?thesis
    by (simp add: render_item_def del: getStatusBadge.simps)
qed

theorem list_item_rendering_witness:
  "PodcastList id demo_list =
     Items [render_item id None demo_project, render_item id None empty_project] \<and>
   pipeline_state demo_project \<noteq> ''idle'' \<and> 0 < total_segments demo_project \<and>
   item_counter (render_item id None demo_project) = Some (0, 2)"
proof -
  have a: "PodcastList id demo_list =
     Items [render_item id None demo_project, render_item id None empty_project]"
    by (simp add: PodcastList_def demo_list_def)
  have b: "pipeline_state demo_project \<noteq> ''idle''" "0 < total_segments demo_project"
    "completed_count demo_project = 0" "total_segments demo_project = 2"
    by (simp_all add: demo_project_def)
  from list_item_rendering [of id demo_list
      "[render_item id None demo_project, render_item id None empty_project]" None demo_project]
    a b show ?thesis by simp
qed

section \<open>Project editor: saving the script\<close>

text \<open>
  C8: in the project editor an edit of the script changes the local text and the
  editing flag and sends nothing; the Save action sends no request either (the update
  call is a comment in the handler), so nothing reaches the server and the persisted
  script is as before.  Save changes only the flags \<^verbatim>\<open>isEditing\<close> and
  \<^verbatim>\<open>saving\<close>, leaving the locally held text, the project held by the hook, and
  every other field as they were.
\<close>

theorem handleSaveScript_sends_nothing:
  "requests (handleSaveScript s) = requests s \<and>
   project (handleSaveScript s) = project s \<and>
   scriptContent (handleSaveScript s) = scriptContent s \<and>
   (handleSaveScript s)\<lparr>isEditing := isEditing s, saving := saving s\<rparr> = s \<and>
   requests (onChange_script v s) = requests s \<and>
   project (onChange_script v s) = project s \<and>
   scriptContent (onChange_script v s) = v \<and>
   isEditing (onChange_script v s) \<and>
   requests (handleSaveScript (onChange_script v s)) = requests s"
  by (simp add: handleSaveScript_def onChange_script_def)


text \<open>
  Once Save has reset the editing flag, the effect that loads the script of the selected
  project runs again and puts the project's script back into the text area: the staged
  edit is gone, and the project's script is what it was.
\<close>

lemma save_then_reload_discards_edit:
  assumes "project s = Some p" and "selectedProjectId s = Some i" and "i \<noteq> []"
  shows "scriptContent (load_script_effect (handleSaveScript (onChange_script v s))) =
         script_content p"
  using assms by (simp add: load_script_effect_def handleSaveScript_def onChange_script_def)
section \<open>The setup script under \<^verbatim>\<open>set -e\<close>\<close>

subsection \<open>Each section of the script is one or more guarded commands\<close>

lemma seq_append: "seq (xs @ ys) s = (case seq xs s of Inl r \<Rightarrow> Inl r | Inr s' \<Rightarrow> seq ys s')"
  by (induction xs arbitrary: s) (simp_all split: sum.splits)

lemma python_steps_run: "seq (python_steps True e) s = after_block (python_block e) s"
  by (simp add: python_steps_def python_block_def after_block_def echo_def cmd_def if_failed_def)

lemma pip_upgrade_steps_run:
  "seq (pip_upgrade_steps True e) s = after_block (pip_upgrade_block e) s"
  by (simp add: pip_upgrade_steps_def pip_upgrade_block_def after_block_def echo_def cmd_def)

lemma install_steps_run: "seq (install_steps True e) s = after_block (install_block e) s"
  by (simp add: install_steps_def install_block_def after_block_def echo_def cmd_def
        if_failed_def)

lemma cuda_steps_run: "seq (cuda_steps True e) s = after_block (cuda_block e) s"
  by (simp add: cuda_steps_def cuda_block_def after_block_def echo_def cmd_def if_failed_def)

lemma imports_steps_run: "seq (imports_steps True e) s = after_block (imports_block e) s"
  by (simp add: imports_steps_def imports_block_def after_block_def echo_def cmd_def
        if_failed_def)

lemma database_steps_run: "seq (database_steps True e) s = after_block (database_block e) s"
  by (simp add: database_steps_def database_block_def after_block_def echo_def cmd_def
        if_failed_def)

lemma directories_steps_run:
  "seq (directories_steps True e) s = after_block (directories_block e) s"
  by (simp add: directories_steps_def directories_block_def after_block_def echo_def cmd_def)

lemmas section_runs = pip_upgrade_steps_run install_steps_run cuda_steps_run
  imports_steps_run database_steps_run directories_steps_run

lemma run_blocks_append:
  "run_blocks (bs1 @ bs2) acc =
     (if fst (run_blocks bs1 acc) = 0 then run_blocks bs2 (snd (run_blocks bs1 acc))
      else run_blocks bs1 acc)"
  by (induction bs1 arbitrary: acc) simp_all

lemma seq_after_blocks:
  "last_status s = 0 \<Longrightarrow> result_of (seq (map after_block bs) s) = run_blocks bs (out s)"
proof (induction bs arbitrary: s)
  case Nil
  then show ?case by (simp add: result_of_def)
next
  case (Cons b bs)
  show ?case
  proof (cases "rc b = 0")
    case True
    then have "seq (map after_block (b # bs)) s =
        seq (map after_block bs) (s\<lparr>out := out s @ pre b @ post b, last_status := 0\<rparr>)"
      by (simp add: after_block_def)
    with True Cons.IH [of "s\<lparr>out := out s @ pre b @ post b, last_status := 0\<rparr>"]
    show ?thesis by simp
  next
    case False
    then show ?thesis by (simp add: after_block_def result_of_def)
  qed
qed

lemma venv_section_run:
  assumes "last_status s = 0" and "SKIP_VENV s = SKIP_VENV_env e"
  shows "seq (venv_steps True e) s =
           (if fst (run_blocks (venv_blocks e) (out s)) = 0
            then Inr (s\<lparr>out := snd (run_blocks (venv_blocks e) (out s)), last_status := 0,
                        SKIP_VENV := (if venv_exists e \<and> \<not> reply_yes e then ''1''
                                      else SKIP_VENV s)\<rparr>)
            else Inl (run_blocks (venv_blocks e) (out s)))"
proof (cases "venv_exists e")
  case False
  with assms show ?thesis
    by (cases "SKIP_VENV_env e = []")
       (simp_all add: venv_steps_def venv_blocks_def creates_venv_def if_sh_def echo_def cmd_def
          if_failed_def)
next
  case True
  show ?thesis
  proof (cases "reply_yes e")
    case no: False
    with True assms show ?thesis
      by (simp add: venv_steps_def venv_blocks_def creates_venv_def if_sh_def echo_def cmd_def
            if_failed_def assign_SKIP_VENV_def)
  next
    case yes: True
    with True assms show ?thesis
      by (cases "SKIP_VENV_env e = []")
         (simp_all add: venv_steps_def venv_blocks_def creates_venv_def if_sh_def echo_def
            cmd_def if_failed_def)
  qed
qed

lemma later_sections_run:
  "seq (pip_upgrade_steps True e @ install_steps True e @ cuda_steps True e @
        imports_steps True e @ database_steps True e @ directories_steps True e) s =
   seq (map after_block
          [pip_upgrade_block e, install_block e, cuda_block e, imports_block e,
           database_block e, directories_block e]) s"
  by (simp add: seq_append section_runs split: sum.splits)

subsection \<open>The script is its sequence of commands\<close>

lemma script_as_blocks: "setup_linux e = run_blocks (blocks e) []"
proof -
  let ?s0 = "\<lparr>out = [], last_status = 0, SKIP_VENV = SKIP_VENV_env e\<rparr>"
  let ?later = "[pip_upgrade_block e, install_block e, cuda_block e, imports_block e,
                 database_block e, directories_block e]"
  let ?later_steps = "pip_upgrade_steps True e @ install_steps True e @ cuda_steps True e @
        imports_steps True e @ database_steps True e @ directories_steps True e"
  have blocks_eq: "blocks e = python_block e # (venv_blocks e @ ?later)"
    by (simp add: blocks_def blocks_before_database_def blocks_before_install_def)
  have run: "setup_linux e =
      result_of (seq (python_steps True e @ venv_steps True e @ ?later_steps) ?s0)"
    by (simp add: setup_linux_def run_script_def setup_steps_def result_of_def)
  show ?thesis
  proof (cases "rc (python_block e) = 0")
    case False
    then show ?thesis
      by (simp add: run blocks_eq seq_append python_steps_run after_block_def result_of_def)
  next
    case True
    let ?s1 = "?s0\<lparr>out := out ?s0 @ pre (python_block e) @ post (python_block e),
                      last_status := 0\<rparr>"
    have s1: "last_status ?s1 = 0" "SKIP_VENV ?s1 = SKIP_VENV_env e" by simp_all
    from True have step1: "setup_linux e = result_of (seq (venv_steps True e @ ?later_steps) ?s1)"
      by (simp add: run seq_append [of "python_steps True e"] python_steps_run after_block_def)
    from True have goal1: "run_blocks (blocks e) [] = run_blocks (venv_blocks e @ ?later) (out ?s1)"
      by (simp add: blocks_eq)
    show ?thesis
    proof (cases "fst (run_blocks (venv_blocks e) (out ?s1)) = 0")
      case False
      with venv_section_run [OF s1]
      have "seq (venv_steps True e) ?s1 = Inl (run_blocks (venv_blocks e) (out ?s1))"
        by simp
      then have "setup_linux e = run_blocks (venv_blocks e) (out ?s1)"
        by (simp add: step1 seq_append [of "venv_steps True e"] result_of_def)
      with False goal1 show ?thesis
        by (simp add: run_blocks_append [of "venv_blocks e"])
    next
      case ok: True
      let ?s2 = "?s1\<lparr>out := snd (run_blocks (venv_blocks e) (out ?s1)), last_status := 0,
                        SKIP_VENV := (if venv_exists e \<and> \<not> reply_yes e then ''1''
                                      else SKIP_VENV ?s1)\<rparr>"
      from ok venv_section_run [OF s1]
      have "seq (venv_steps True e) ?s1 = Inr ?s2" by simp
      then have "setup_linux e = result_of (seq ?later_steps ?s2)"
        by (simp add: step1 seq_append [of "venv_steps True e"])
      also have "\<dots> = result_of (seq (map after_block ?later) ?s2)"
        by (simp only: later_sections_run)
      also have "\<dots> = run_blocks ?later (out ?s2)"
        by (rule seq_after_blocks) simp
      finally have "setup_linux e = run_blocks ?later (snd (run_blocks (venv_blocks e) (out ?s1)))"
        by simp
      with ok goal1 show ?thesis
        by (simp add: run_blocks_append [of "venv_blocks e"])
    qed
  qed
qed

subsection \<open>Properties of a sequence of guarded commands\<close>

lemma run_blocks_status: "fst (run_blocks bs acc) = first_failure (map rc bs)"
  by (induction bs arbitrary: acc) (simp_all add: first_failure_def)

lemma run_blocks_lines:
  "set (snd (run_blocks bs acc)) \<subseteq> set acc \<union> (\<Union>b \<in> set bs. set (pre b) \<union> set (post b))"
proof (induction bs arbitrary: acc)
  case Nil
  show ?case by simp
next
  case (Cons b bs)
  show ?case
  proof (cases "rc b = 0")
    case True
    with Cons.IH [of "acc @ pre b @ post b"] show ?thesis by auto
  next
    case False
    then show ?thesis by auto
  qed
qed

lemma run_blocks_stops:
  assumes "rc b \<noteq> 0"
  shows "fst (run_blocks (bs1 @ b # bs2) acc) \<noteq> 0 \<and>
         set (snd (run_blocks (bs1 @ b # bs2) acc)) \<subseteq>
           set acc \<union> (\<Union>b' \<in> set bs1. set (pre b') \<union> set (post b')) \<union> set (pre b)"
proof (cases "fst (run_blocks bs1 acc) = 0")
  case True
  with assms have "run_blocks (bs1 @ b # bs2) acc = (rc b, snd (run_blocks bs1 acc) @ pre b)"
    by (simp add: run_blocks_append)
  with assms run_blocks_lines [of bs1 acc] show ?thesis by auto
next
  case False
  then have "run_blocks (bs1 @ b # bs2) acc = run_blocks bs1 acc"
    by (simp add: run_blocks_append)
  with False run_blocks_lines [of bs1 acc] show ?thesis by auto
qed

lemma run_blocks_all_ok:
  "first_failure (map rc bs) = 0 \<Longrightarrow>
   run_blocks bs acc = (0, acc @ concat (map (\<lambda>b. pre b @ post b) bs))"
proof (induction bs arbitrary: acc)
  case Nil
  show ?case by simp
next
  case (Cons b bs)
  from Cons.prems have b: "rc b = 0"
    by (cases "rc b = 0") (simp_all add: first_failure_def)
  with Cons.prems have "first_failure (map rc bs) = 0"
    by (simp add: first_failure_def)
  from Cons.IH [OF this, of "acc @ pre b @ post b"] b show ?case by simp
qed

subsection \<open>What each section prints\<close>

lemma cuda_lines: "l \<in> set (fst (cuda_check_py e)) \<Longrightarrow> l \<noteq> Info ''Setup Complete!''"
  by (auto simp add: cuda_check_py_def split: if_splits sum.splits option.splits)

lemma try_imports_lines:
  assumes "l \<in> set (fst (try_imports r ms printed failed))"
    and "\<And>y. Info y \<notin> set printed"
  shows "l \<noteq> Info x"
  using assms
proof (induction ms arbitrary: printed failed)
  case Nil
  then show ?case by (auto split: if_splits)
next
  case (Cons m ms)
  show ?case
  proof (cases "r m")
    case Imported
    with Cons.prems(1)
    have "l \<in> set (fst (try_imports r ms (printed @ ok_lines m) failed))" by simp
    moreover have "Info y \<notin> set (printed @ ok_lines m)" for y
      using Cons.prems(2) [of y] by (simp add: ok_lines_def)
    ultimately show ?thesis by (rule Cons.IH)
  next
    case ImportError
    with Cons.prems(1)
    have "l \<in> set (fst (try_imports r ms (printed @ [Err m []]) (failed @ [m])))" by simp
    moreover have "Info y \<notin> set (printed @ [Err m []])" for y
      using Cons.prems(2) [of y] by simp
    ultimately show ?thesis by (rule Cons.IH)
  next
    case OtherError
    with Cons.prems show ?thesis by auto
  qed
qed

lemma imports_lines: "l \<in> set (fst (verify_imports_py e)) \<Longrightarrow> l \<noteq> Info x"
  using try_imports_lines [of l "import_result e" import_names "[]" "[]" x]
  by (simp add: verify_imports_py_def)

lemma database_lines: "l \<in> set (fst (database_check_py e)) \<Longrightarrow> l \<noteq> Info ''Setup Complete!''"
  by (auto simp add: database_check_py_def Let_def split: if_splits sum.splits)

lemma directories_lines:
  "l \<in> set (fst (data_directories_py e)) \<Longrightarrow> l \<noteq> Info ''Setup Complete!''"
  by (auto simp add: data_directories_py_def directory_lines_def Let_def
        split: if_splits option.splits)

lemma before_install_lines:
  "l \<in> lines_of (blocks_before_install e) \<Longrightarrow>
   l \<noteq> Ok ''All dependencies installed'' \<and>
   l \<noteq> Info ''Checking CUDA (Nvidia GPU) availability...'' \<and>
   l \<noteq> Info ''Setup Complete!''"
  by (auto simp add: lines_of_def blocks_before_install_def venv_blocks_def python_block_def
        pip_upgrade_block_def split: if_splits)

lemma before_database_lines:
  assumes "l \<in> lines_of (blocks_before_database e)"
  shows "l \<noteq> Info ''Setup Complete!''"
proof -
  from assms have "l \<in> lines_of (blocks_before_install e) \<or>
      l \<in> set (pre (install_block e)) \<union> set (post (install_block e)) \<or>
      l = Info ''Checking CUDA (Nvidia GPU) availability...'' \<or>
      l \<in> set (fst (cuda_check_py e)) \<or>
      l = Info ''Verifying core imports...'' \<or>
      l \<in> set (fst (verify_imports_py e))"
    by (auto simp add: lines_of_def blocks_before_database_def cuda_block_def imports_block_def)
  then show ?thesis
    using before_install_lines [of l e] cuda_lines [of l e] imports_lines [of l e]
    by (auto simp add: install_block_def)
qed

lemma all_ok_member:
  "first_failure (map rc bs) = 0 \<Longrightarrow> b \<in> set bs \<Longrightarrow> rc b = 0"
proof (induction bs)
  case Nil
  then show ?case by simp
next
  case (Cons a bs)
  from Cons.prems(1) have a: "rc a = 0"
    by (cases "rc a = 0") (simp_all add: first_failure_def)
  with Cons.prems(1) have "first_failure (map rc bs) = 0" by (simp add: first_failure_def)
  with Cons a show ?case by auto
qed

lemma try_imports_all_imported:
  assumes "snd (try_imports r ms printed failed) = 0" and "m \<in> set ms"
  shows "r m = Imported"
  using assms
proof (induction ms arbitrary: printed failed)
  case Nil
  then show ?case by simp
next
  case (Cons a ms)
  show ?case
  proof (cases "r a")
    case Imported
    with Cons.prems(1) have "snd (try_imports r ms (printed @ ok_lines a) failed) = 0" by simp
    from Cons.IH [OF this] Cons.prems(2) Imported show ?thesis by auto
  next
    case ImportError
    with Cons.prems(1)
    have rest: "snd (try_imports r ms (printed @ [Err a []]) (failed @ [a])) = 0" by simp
    have "snd (try_imports r ms' p' f') \<noteq> 0" if "f' \<noteq> []" for ms' p' f'
      using that
    proof (induction ms' arbitrary: p' f')
      case Nil
      then show ?case by simp
    next
      case (Cons b ms')
      then show ?case by (cases "r b") simp_all
    qed
    from this [of "failed @ [a]" ms "printed @ [Err a []]"] rest show ?thesis by simp
  next
    case OtherError
    with Cons.prems(1) show ?thesis by simp
  qed
qed

lemma imports_verified:
  assumes "snd (verify_imports_py e) = 0"
  shows "import_ok e ''Backend modules''"
  using try_imports_all_imported [of "import_result e" import_names "[]" "[]" "''Backend modules''"]
    assms
  by (simp add: verify_imports_py_def import_ok_def import_names_def)

lemma database_check_missing:
  assumes "db_tables e = Inr tables" and "missing_tables tables \<noteq> []"
  shows "snd (database_check_py e) \<noteq> 0"
    and "import_ok e ''Backend modules'' \<Longrightarrow>
         database_check_py e = ([Err ''Missing database tables'' (missing_tables tables)], 1)"
  using assms by (simp_all add: database_check_py_def missing_tables_def Let_def)

subsection \<open>Where the script stops\<close>

text \<open>
  The script exits with the status of the first command that fails, and with 0 if none
  does.  It never continues past a failed dependency install: when
  \<^verbatim>\<open>pip install -r requirements.txt\<close> fails the exit status is non-zero and neither
  the success line of the install, nor the announcement of the next section, nor
  "Setup Complete!" is printed.  After initialising the data store the script checks that
  the tables \<^verbatim>\<open>podcast_projects\<close> and \<^verbatim>\<open>podcast_segments\<close> exist: if one is
  missing the exit status is non-zero and "Setup Complete!" is not printed, and when
  every command before the database check has succeeded the script ends with status 1
  right after printing the labeled error that lists the missing tables.
\<close>

lemma setup_exits_at_first_failed_command:
  "fst (setup_linux e) = first_failure (command_statuses e) \<and>
   (pip_install_rc e \<noteq> 0 \<longrightarrow>
      fst (setup_linux e) \<noteq> 0 \<and>
      Ok ''All dependencies installed'' \<notin> set (snd (setup_linux e)) \<and>
      Info ''Checking CUDA (Nvidia GPU) availability...'' \<notin> set (snd (setup_linux e)) \<and>
      Info ''Setup Complete!'' \<notin> set (snd (setup_linux e))) \<and>
   (db_tables e = Inr tables \<and> missing_tables tables \<noteq> [] \<longrightarrow>
      fst (setup_linux e) \<noteq> 0 \<and>
      Info ''Setup Complete!'' \<notin> set (snd (setup_linux e))) \<and>
   (db_tables e = Inr tables \<and> missing_tables tables \<noteq> [] \<and>
    first_failure (map rc (blocks_before_database e)) = 0 \<longrightarrow>
      fst (setup_linux e) = 1 \<and>
      snd (setup_linux e) =
        concat (map (\<lambda>b. pre b @ post b) (blocks_before_database e)) @
        [Info ''Checking database initialization...'',
         Err ''Missing database tables'' (missing_tables tables)])"
proof (intro conjI impI)
  show "fst (setup_linux e) = first_failure (command_statuses e)"
    by (simp add: script_as_blocks run_blocks_status command_statuses_def)
next
  assume fail: "pip_install_rc e \<noteq> 0"
  have split: "blocks e = blocks_before_install e @ install_block e #
      [cuda_block e, imports_block e, database_block e, directories_block e]"
    by (simp add: blocks_def blocks_before_database_def)
  from fail have "rc (install_block e) \<noteq> 0" by (simp add: install_block_def)
  from run_blocks_stops [OF this, of "blocks_before_install e" _ "[]"]
  have status: "fst (setup_linux e) \<noteq> 0"
    and lines: "set (snd (setup_linux e)) \<subseteq>
      lines_of (blocks_before_install e) \<union> set (pre (install_block e))"
    by (simp_all add: script_as_blocks split lines_of_def)
  show "fst (setup_linux e) \<noteq> 0" by (rule status)
  show "Ok ''All dependencies installed'' \<notin> set (snd (setup_linux e))"
    using lines before_install_lines [of "Ok ''All dependencies installed''" e]
    by (auto simp add: install_block_def)
  show "Info ''Checking CUDA (Nvidia GPU) availability...'' \<notin> set (snd (setup_linux e))"
    using lines
      before_install_lines [of "Info ''Checking CUDA (Nvidia GPU) availability...''" e]
    by (auto simp add: install_block_def)
  show "Info ''Setup Complete!'' \<notin> set (snd (setup_linux e))"
    using lines before_install_lines [of "Info ''Setup Complete!''" e]
    by (auto simp add: install_block_def)
next
  assume "db_tables e = Inr tables \<and> missing_tables tables \<noteq> []"
  then have db: "db_tables e = Inr tables" and missing: "missing_tables tables \<noteq> []"
    by simp_all
  have split: "blocks e = blocks_before_database e @ database_block e # [directories_block e]"
    by (simp add: blocks_def)
  from database_check_missing(1) [OF db missing]
  have "rc (database_block e) \<noteq> 0" by (simp add: database_block_def)
  from run_blocks_stops [OF this, of "blocks_before_database e" _ "[]"]
  have status: "fst (setup_linux e) \<noteq> 0"
    and lines: "set (snd (setup_linux e)) \<subseteq>
      lines_of (blocks_before_database e) \<union> set (pre (database_block e))"
    by (simp_all add: script_as_blocks split lines_of_def)
  show "fst (setup_linux e) \<noteq> 0" by (rule status)
  show "Info ''Setup Complete!'' \<notin> set (snd (setup_linux e))"
    using lines before_database_lines [of "Info ''Setup Complete!''" e]
      database_lines [of "Info ''Setup Complete!''" e]
    by (auto simp add: database_block_def)
next
  assume "db_tables e = Inr tables \<and> missing_tables tables \<noteq> [] \<and>
    first_failure (map rc (blocks_before_database e)) = 0"
  then have db: "db_tables e = Inr tables" and missing: "missing_tables tables \<noteq> []"
    and ok: "first_failure (map rc (blocks_before_database e)) = 0"
    by simp_all
  have "imports_block e \<in> set (blocks_before_database e)"
    by (simp add: blocks_before_database_def)
  from all_ok_member [OF ok this] have "snd (verify_imports_py e) = 0"
    by (simp add: imports_block_def)
  from database_check_missing(2) [OF db missing imports_verified [OF this]]
  have check: "database_check_py e =
      ([Err ''Missing database tables'' (missing_tables tables)], 1)" .
  have "run_blocks (blocks e) [] =
      run_blocks [database_block e, directories_block e]
        (concat (map (\<lambda>b. pre b @ post b) (blocks_before_database e)))"
    using run_blocks_all_ok [OF ok, of "[]"]
    by (simp add: blocks_def run_blocks_append)
  with check have result: "setup_linux e =
      (1, concat (map (\<lambda>b. pre b @ post b) (blocks_before_database e)) @
          [Info ''Checking database initialization...'',
           Err ''Missing database tables'' (missing_tables tables)])"
    by (simp add: script_as_blocks database_block_def)
  show "fst (setup_linux e) = 1" by (simp add: result)
  show "snd (setup_linux e) =
      concat (map (\<lambda>b. pre b @ post b) (blocks_before_database e)) @
      [Info ''Checking database initialization...'',
       Err ''Missing database tables'' (missing_tables tables)]"
    by (simp add: result)
qed

lemma setup_exits_at_first_failed_command_example:
  "pip_install_rc failed_install_env \<noteq> 0 \<and>
   fst (setup_linux failed_install_env) = 1 \<and>
   Info ''Setup Complete!'' \<notin> set (snd (setup_linux failed_install_env)) \<and>
   db_tables missing_table_env = Inr [''profiles'', ''podcast_projects''] \<and>
   missing_tables [''profiles'', ''podcast_projects''] \<noteq> [] \<and>
   first_failure (map rc (blocks_before_database missing_table_env)) = 0 \<and>
   fst (setup_linux missing_table_env) = 1 \<and>
   last (snd (setup_linux missing_table_env)) =
     Err ''Missing database tables'' [''podcast_segments'']"
proof -
  have a: "pip_install_rc failed_install_env \<noteq> 0" by code_simp
  have a': "first_failure (command_statuses failed_install_env) = 1" by code_simp
  have b: "db_tables missing_table_env = Inr [''profiles'', ''podcast_projects'']" by code_simp
  have c: "missing_tables [''profiles'', ''podcast_projects''] = [''podcast_segments'']"
    by code_simp
  have d: "first_failure (map rc (blocks_before_database missing_table_env)) = 0" by code_simp
  note t1 = setup_exits_at_first_failed_command [of failed_install_env "[]"]
  note t2 = setup_exits_at_first_failed_command
    [of missing_table_env "[''profiles'', ''podcast_projects'']"]
  from t1 a a' have 1: "fst (setup_linux failed_install_env) = 1"
    and 2: "Info ''Setup Complete!'' \<notin> set (snd (setup_linux failed_install_env))"
    by simp_all
  from t2 b c d have 3: "fst (setup_linux missing_table_env) = 1"
    and 4: "last (snd (setup_linux missing_table_env)) =
     Err ''Missing database tables'' [''podcast_segments'']"
    by simp_all
  from a b c d 1 2 3 4 show ?thesis by simp
qed

subsection \<open>The error labels\<close>

lemma before_install_no_label: "l \<in> lines_of (blocks_before_install e) \<Longrightarrow> \<not> is_err l"
  by (auto simp add: lines_of_def blocks_before_install_def venv_blocks_def python_block_def
        pip_upgrade_block_def split: if_splits)

text \<open>
  Whatever else happens, a run in which the dependency install fails prints no line
  marked as an error.
\<close>

lemma failed_install_never_labelled:
  assumes "pip_install_rc e \<noteq> 0"
  shows "filter is_err (snd (setup_linux e)) = []"
proof -
  have split: "blocks e = blocks_before_install e @ install_block e #
      [cuda_block e, imports_block e, database_block e, directories_block e]"
    by (simp add: blocks_def blocks_before_database_def)
  from assms have "rc (install_block e) \<noteq> 0" by (simp add: install_block_def)
  from run_blocks_stops [OF this, of "blocks_before_install e" _ "[]"]
  have lines: "set (snd (setup_linux e)) \<subseteq>
      lines_of (blocks_before_install e) \<union> set (pre (install_block e))"
    by (simp add: script_as_blocks split lines_of_def)
  have "\<not> is_err l" if "l \<in> set (snd (setup_linux e))" for l
  proof -
    from that lines have "l \<in> lines_of (blocks_before_install e) \<or>
        l = Info ''Installing Python dependencies...''"
      by (auto simp add: install_block_def)
    then show ?thesis using before_install_no_label [of l e] by auto
  qed
  then show ?thesis by (simp add: filter_empty_conv)
qed

text \<open>
  C5: the claim asks for a non-zero exit status and a labeled error at the first failed
  step.  The script means to print such a label after each command it checks, but under
  \<^verbatim>\<open>set -e\<close> the shell leaves at the failed command, before the test of
  \<^verbatim>\<open>$?\<close>.  On a machine where everything succeeds except
  \<^verbatim>\<open>pip install -r requirements.txt\<close>, which returns 1, the script ends with status 1
  right after announcing the install, and no line of its output is marked as an error;
  the same script run without \<^verbatim>\<open>set -e\<close> prints its label
  "Failed to install dependencies".
\<close>

theorem failed_install_prints_no_label:
  "setup_linux failed_install_env =
     (1, [Info ''Checking Python version...'', Ok ''Python 3 installed'',
          Info ''Creating virtual environment at voicebox_env...'',
          Ok ''Virtual environment created'',
          Info ''Activating virtual environment...'',
          Ok ''Virtual environment activated'',
          Info ''Upgrading pip...'', Ok ''pip upgraded'',
          Info ''Installing Python dependencies...'']) \<and>
   filter is_err (snd (setup_linux failed_install_env)) = [] \<and>
   filter is_err (snd (run_script False failed_install_env)) =
     [Err ''Failed to install dependencies'' []]"
  by code_simp

section \<open>Markers from script to timeline\<close>

subsection \<open>Parsing\<close>

lemma segments_from_length:
  "length (segments_from profile_of k ls) =
     length (filter is_text_line ls) + length (filter is_marker_line ls)"
  by (induction profile_of k ls rule: segments_from.induct) simp_all

lemma upt_shift: "[k..<Suc (k + n)] = k # [Suc k..<Suc (k + n)]"
  by (rule upt_conv_Cons) simp

lemma segments_from_order:
  "map ps_order (segments_from profile_of k ls) =
     [k..<k + length (segments_from profile_of k ls)]"
proof (induction profile_of k ls rule: segments_from.induct)
  case (1 profile_of k)
  show ?case by simp
next
  case (2 profile_of k ls)
  then show ?case by simp
next
  case (3 profile_of k sp tx ls)
  then show ?case by (simp add: upt_shift del: upt_Suc)
next
  case (4 profile_of k m v ls)
  then show ?case by (simp add: upt_shift del: upt_Suc)
qed

lemma segments_from_pending:
  "s \<in> set (segments_from profile_of k ls) \<Longrightarrow> ps_status s = ''pending''"
  by (induction profile_of k ls rule: segments_from.induct) auto

lemma classify_line_marker: "classify_line l = MarkerLine m v \<Longrightarrow> m \<noteq> TextSegment"
  by (auto simp add: classify_line_def Let_def split: if_splits)

lemma segments_from_markers:
  assumes "\<And>m v. MarkerLine m v \<in> set ls \<Longrightarrow> m \<noteq> TextSegment"
  shows "length (filter (\<lambda>s. ps_marker_type s \<noteq> TextSegment) (segments_from profile_of k ls)) =
         length (filter is_marker_line ls)"
  using assms
proof (induction profile_of k ls rule: segments_from.induct)
  case (4 profile_of k m v ls)
  from "4.prems" [of m v] have "m \<noteq> TextSegment" by simp
  moreover have "m' \<noteq> TextSegment" if "MarkerLine m' v' \<in> set ls" for m' v'
    using that "4.prems" [of m' v'] by simp
  ultimately show ?case using "4.IH" by simp
qed simp_all

lemma parse_body_markers:
  "length (filter (\<lambda>s. ps_marker_type s \<noteq> TextSegment) (parse_body profile_of body)) =
   count_markers body"
  unfolding parse_body_def count_markers_def
proof (rule segments_from_markers)
  fix m v
  assume "MarkerLine m v \<in> set (body_lines body)"
  then obtain l where "classify_line l = MarkerLine m v"
    by (auto simp add: body_lines_def)
  then show "m \<noteq> TextSegment" by (rule classify_line_marker)
qed

subsection \<open>One segment, then the run\<close>

lemma process_segment_ok:
  assumes "pp_state (process_segment tts n s p) \<noteq> ''error''"
  shows "(ps_marker_type s \<noteq> TextSegment \<and>
          pp_items (process_segment tts n s p) = pp_items p @ [marker_item s p] \<and>
          pp_generations (process_segment tts n s p) = pp_generations p) \<or>
         (ps_marker_type s = TextSegment \<and>
          pp_items (process_segment tts n s p) = pp_items p @ [voice_item p] \<and>
          (\<exists>d. pp_generations (process_segment tts n s p) =
                 pp_generations p @ [new_generation s p d]))"
proof (cases "ps_marker_type s \<noteq> TextSegment")
  case True
  then show ?thesis by (simp add: process_segment_def)
next
  case spoken: False
  show ?thesis
  proof (cases "ps_profile_id s")
    case None
    with spoken have "process_segment tts n s p = segment_failed s p"
      by (simp add: process_segment_def)
    with assms show ?thesis by (simp add: segment_failed_def)
  next
    case (Some prof)
    show ?thesis
    proof (cases "first_success (tts s) n")
      case None
      with spoken Some have "process_segment tts n s p = segment_failed s p"
        by (simp add: process_segment_def)
      with assms show ?thesis by (simp add: segment_failed_def)
    next
      case (Some d)
      with spoken \<open>ps_profile_id s = Some prof\<close> show ?thesis
        by (auto simp add: process_segment_def)
    qed
  qed
qed

lemma process_segment_store:
  assumes ok: "store_ok p" and run: "pp_state (process_segment tts n s p) \<noteq> ''error''"
  shows "store_ok (process_segment tts n s p)"
  using process_segment_ok [OF run]
proof (elim disjE conjE exE)
  assume "pp_items (process_segment tts n s p) = pp_items p @ [marker_item s p]"
    and "pp_generations (process_segment tts n s p) = pp_generations p"
  with ok show ?thesis by (auto simp add: store_ok_def marker_item_def)
next
  fix d
  assume "pp_items (process_segment tts n s p) = pp_items p @ [voice_item p]"
    and "pp_generations (process_segment tts n s p) = pp_generations p @ [new_generation s p d]"
  with ok show ?thesis
    by (auto simp add: store_ok_def voice_item_def new_generation_def less_Suc_eq)
qed

lemma run_segments_items:
  assumes "pp_state (run_segments tts n ss p) = ''completed''"
    and "\<And>s. s \<in> set ss \<Longrightarrow> ps_status s = ''pending''"
  shows "length (pp_items (run_segments tts n ss p)) = length (pp_items p) + length ss \<and>
         length (filter no_generation (pp_items (run_segments tts n ss p))) =
           length (filter no_generation (pp_items p)) +
           length (filter (\<lambda>s. ps_marker_type s \<noteq> TextSegment) ss) \<and>
         (store_ok p \<longrightarrow> store_ok (run_segments tts n ss p))"
  using assms
proof (induction ss arbitrary: p)
  case Nil
  show ?case by (simp add: store_ok_def)
next
  case (Cons s ss)
  let ?p' = "process_segment tts n s p"
  from Cons.prems(2) [of s] have pending: "ps_status s \<noteq> ''completed''" by simp
  have ok: "pp_state ?p' \<noteq> ''error''"
  proof
    assume err: "pp_state ?p' = ''error''"
    with pending have "run_segments tts n (s # ss) p = ?p'" by (simp add: Let_def)
    with Cons.prems(1) err show False by simp
  qed
  with pending have run: "run_segments tts n (s # ss) p = run_segments tts n ss ?p'"
    by (simp add: Let_def)
  have items: "length (pp_items ?p') = Suc (length (pp_items p))"
    and markers: "length (filter no_generation (pp_items ?p')) =
       length (filter no_generation (pp_items p)) +
       (if ps_marker_type s \<noteq> TextSegment then 1 else 0)"
    using process_segment_ok [OF ok]
    by (auto simp add: no_generation_def marker_item_def voice_item_def)
  from Cons.prems(1) run have "pp_state (run_segments tts n ss ?p') = ''completed''" by simp
  from Cons.IH [OF this] Cons.prems(2)
  have ih: "length (pp_items (run_segments tts n ss ?p')) = length (pp_items ?p') + length ss"
    "length (filter no_generation (pp_items (run_segments tts n ss ?p'))) =
       length (filter no_generation (pp_items ?p')) +
       length (filter (\<lambda>s. ps_marker_type s \<noteq> TextSegment) ss)"
    "store_ok ?p' \<longrightarrow> store_ok (run_segments tts n ss ?p')"
    by simp_all
  have store: "store_ok p \<longrightarrow> store_ok ?p'"
    using process_segment_store [OF _ ok] by blast
  show ?case
  proof (intro conjI)
    show "length (pp_items (run_segments tts n (s # ss) p)) =
          length (pp_items p) + length (s # ss)"
      using ih(1) items by (simp only: run) simp
    show "length (filter no_generation (pp_items (run_segments tts n (s # ss) p))) =
          length (filter no_generation (pp_items p)) +
          length (filter (\<lambda>s. ps_marker_type s \<noteq> TextSegment) (s # ss))"
      using ih(2) markers by (simp only: run) simp
    show "store_ok p \<longrightarrow> store_ok (run_segments tts n (s # ss) p)"
      using ih(3) store by (simp only: run) blast
  qed
qed

subsection \<open>Retrieval\<close>

lemma no_generation_fun: "no_generation = (\<lambda>it. item_generation_id it = None)"
  by (simp add: fun_eq_iff no_generation_def)

lemma outer_join_keeps_all:
  "length (items_outer_join p) = length (pp_items p) \<and>
   length (filter is_marker_item (items_outer_join p)) =
     length (filter no_generation (pp_items p))"
  by (simp add: items_outer_join_def is_marker_item_def no_generation_fun filter_map comp_def)

lemma count_in_upt: "length (filter (\<lambda>i. i = g) [0..<n]) = (if g < n then 1 else 0)"
  by (induction n) auto

lemma one_generation_per_id:
  assumes "map gen_id gens = [0..<length gens]" and "g < length gens"
  shows "length (filter (\<lambda>x. Some g = Some (gen_id x)) gens) = 1"
proof -
  have "length (filter (\<lambda>x. Some g = Some (gen_id x)) gens) =
        length (filter (\<lambda>i. i = g) (map gen_id gens))"
    by (simp add: filter_map comp_def eq_commute)
  also have "\<dots> = length (filter (\<lambda>i. i = g) [0..<length gens])"
    by (simp only: assms(1))
  also from assms(2) have "\<dots> = 1"
    by (simp only: count_in_upt if_True)
  finally show ?thesis .
qed

lemma concat_rows_count:
  "(\<And>x. x \<in> set xs \<Longrightarrow> length (f x) = (if P x then 0 else 1)) \<Longrightarrow>
   length (concat (map f xs)) + length (filter P xs) = length xs"
  by (induction xs) simp_all

lemma inner_join_count:
  assumes "store_ok p"
  shows "length (items_inner_join p) + length (filter no_generation (pp_items p)) =
         length (pp_items p)"
proof -
  have row: "length (map (\<lambda>x. (it, x))
               (filter (\<lambda>x. item_generation_id it = Some (gen_id x)) (pp_generations p))) =
             (if no_generation it then 0 else 1)" if "it \<in> set (pp_items p)" for it
  proof (cases "item_generation_id it")
    case None
    then show ?thesis by (simp add: no_generation_def)
  next
    case (Some g)
    with assms that have "g < length (pp_generations p)"
      and "map gen_id (pp_generations p) = [0..<length (pp_generations p)]"
      by (auto simp add: store_ok_def)
    from one_generation_per_id [OF this(2) this(1)] Some show ?thesis
      by (simp add: no_generation_def)
  qed
  show ?thesis
    unfolding items_inner_join_def by (rule concat_rows_count) (rule row)
qed


subsection \<open>The claim\<close>

text \<open>
  C2: for every script, with N the number of its text segments and M the number of its
  marker segments, parsing produces exactly N + M segments, ordered 0, 1, ... in
  document order; and after a full successful run (the pipeline started on the new
  project ends in state \<^verbatim>\<open>completed\<close>) the exported timeline, retrieved with the
  outer join, contains N + M story items, M of them marker items without a generation:
  no marker is dropped.
\<close>

theorem markers_reach_the_timeline:
  "length (parse_body profile_of body) = count_text body + count_markers body \<and>
   map ps_order (parse_body profile_of body) = [0..<count_text body + count_markers body] \<and>
   (pp_state (start_pipeline tts n (create_project profile_of body)) = ''completed'' \<longrightarrow>
      length (export_timeline (start_pipeline tts n (create_project profile_of body))) =
        count_text body + count_markers body \<and>
      length (filter is_marker_item
                (export_timeline (start_pipeline tts n (create_project profile_of body)))) =
        count_markers body)"
proof (intro conjI impI)
  show len: "length (parse_body profile_of body) = count_text body + count_markers body"
    by (simp add: parse_body_def count_text_def count_markers_def segments_from_length)
  show "map ps_order (parse_body profile_of body) = [0..<count_text body + count_markers body]"
    using segments_from_order [of profile_of 0 "body_lines body"] len
    by (simp add: parse_body_def)
next
  let ?p0 = "create_project profile_of body"
  let ?segs = "parse_body profile_of body"
  assume finished: "pp_state (start_pipeline tts n ?p0) = ''completed''"
  have start: "start_pipeline tts n ?p0 =
      run_segments tts n ?segs (?p0\<lparr>pp_state := ''generating''\<rparr>)"
    by (simp add: start_pipeline_def create_project_def)
  have pending: "ps_status s = ''pending''" if "s \<in> set ?segs" for s
    using that by (auto simp add: parse_body_def dest: segments_from_pending)
  from finished have "pp_state (run_segments tts n ?segs (?p0\<lparr>pp_state := ''generating''\<rparr>)) =
      ''completed''"
    by (simp only: start)
  note run = run_segments_items [OF this pending]
  have empty: "pp_items (?p0\<lparr>pp_state := ''generating''\<rparr>) = []"
    by (simp add: create_project_def)
  have items: "length (pp_items (start_pipeline tts n ?p0)) = length ?segs"
    using run empty by (simp only: start) simp
  have markers: "length (filter no_generation (pp_items (start_pipeline tts n ?p0))) =
      length (filter (\<lambda>s. ps_marker_type s \<noteq> TextSegment) ?segs)"
    using run empty by (simp only: start) simp
  have len: "length ?segs = count_text body + count_markers body"
    by (simp add: parse_body_def count_text_def count_markers_def segments_from_length)
  show "length (export_timeline (start_pipeline tts n ?p0)) =
      count_text body + count_markers body"
    using items len by (simp add: export_timeline_def outer_join_keeps_all)
  show "length (filter is_marker_item (export_timeline (start_pipeline tts n ?p0))) =
      count_markers body"
    using markers by (simp add: export_timeline_def outer_join_keeps_all parse_body_markers)
qed

theorem markers_reach_the_timeline_witness:
  "pp_state (start_pipeline sample_tts 3 (create_project sample_profiles sample_body)) =
     ''completed'' \<and>
   count_text sample_body = 2 \<and> count_markers sample_body = 1 \<and>
   length (export_timeline
             (start_pipeline sample_tts 3 (create_project sample_profiles sample_body))) = 3 \<and>
   length (filter is_marker_item
             (export_timeline
                (start_pipeline sample_tts 3 (create_project sample_profiles sample_body)))) = 1"
proof -
  have a: "pp_state (start_pipeline sample_tts 3 (create_project sample_profiles sample_body)) =
     ''completed''" by code_simp
  have b: "count_text sample_body = 2" by code_simp
  have c: "count_markers sample_body = 1" by code_simp
  from markers_reach_the_timeline [of sample_profiles sample_body sample_tts 3] a b c
  show ?thesis by simp
qed

text \<open>
  With the inner join the retrieval would return only the N items that have a
  generation: after a full successful run, the rows of the inner join and the marker
  items together make up the N + M items.
\<close>

lemma inner_join_drops_markers:
  assumes "pp_state (start_pipeline tts n (create_project profile_of body)) = ''completed''"
  shows "length (items_inner_join (start_pipeline tts n (create_project profile_of body))) =
         count_text body"
proof -
  let ?p0 = "create_project profile_of body"
  let ?segs = "parse_body profile_of body"
  have start: "start_pipeline tts n ?p0 =
      run_segments tts n ?segs (?p0\<lparr>pp_state := ''generating''\<rparr>)"
    by (simp add: start_pipeline_def create_project_def)
  have pending: "ps_status s = ''pending''" if "s \<in> set ?segs" for s
    using that by (auto simp add: parse_body_def dest: segments_from_pending)
  have fresh: "store_ok (?p0\<lparr>pp_state := ''generating''\<rparr>)"
    by (simp add: store_ok_def create_project_def)
  from assms have "pp_state (run_segments tts n ?segs (?p0\<lparr>pp_state := ''generating''\<rparr>)) =
      ''completed''"
    by (simp only: start)
  note run = run_segments_items [OF this pending]
  have empty: "pp_items (?p0\<lparr>pp_state := ''generating''\<rparr>) = []"
    by (simp add: create_project_def)
  have items: "length (pp_items (start_pipeline tts n ?p0)) = length ?segs"
    using run empty by (simp only: start) simp
  have markers: "length (filter no_generation (pp_items (start_pipeline tts n ?p0))) =
      length (filter (\<lambda>s. ps_marker_type s \<noteq> TextSegment) ?segs)"
    using run empty by (simp only: start) simp
  have store: "store_ok (start_pipeline tts n ?p0)"
    using run fresh by (simp only: start)
  have len: "length ?segs = count_text body + count_markers body"
    by (simp add: parse_body_def count_text_def count_markers_def segments_from_length)
  from inner_join_count [OF store] items markers len show ?thesis
    by (simp add: parse_body_markers)
qed

lemma inner_join_example:
  "length (items_inner_join
             (start_pipeline sample_tts 3 (create_project sample_profiles sample_body))) = 2"
  by code_simp


end
